theory Spec2Isabelle
  imports Complex_Main "HOL-Library.Log_Nat"
begin

section \<open>JavaScript values as the normalizers see them\<close>

text \<open>
  The reconciliation script \<^verbatim>\<open>generate_comparison.js\<close> reads provider payloads with
  \<^verbatim>\<open>JSON.parse\<close> and hands the parsed value to \<^verbatim>\<open>normalizeDeBank\<close> or
  \<^verbatim>\<open>normalizeZerion\<close>. A parsed payload is null, a boolean, a number, a string, an
  array or a plain object; reading a property can also give \<^verbatim>\<open>undefined\<close>, and
  arithmetic on \<^verbatim>\<open>undefined\<close> gives \<^verbatim>\<open>NaN\<close>. An object is an association list
  from property names to values.

  Two copies of the script are covered: \<^verbatim>\<open>src/scripts/generate_comparison.js\<close> and the
  later \<^verbatim>\<open>src/unnamed/part_003\<close>, which adds the vesting block, two alias entries and
  the \<^verbatim>\<open>TARGET_ADDRESSES\<close> filter. Where they differ a Boolean flag selects the copy.
\<close>

subsection \<open>Numbers\<close>

text \<open>
  JavaScript numbers are IEEE 754 binary64 values. A finite one is given here by the
  rational number it denotes; there are the two infinities and \<^verbatim>\<open>NaN\<close>. The two zeros
  are one value: the script adds, multiplies and tests truthiness, and none of these tells
  \<^verbatim>\<open>-0\<close> from \<^verbatim>\<open>0\<close> other than by the sign of a zero result.

  \<open>two_pow e\<close> is 2 to the power \<open>e\<close>; \<open>ilog2 x\<close> is, for positive \<open>x\<close>, the exponent
  \<open>e\<close> with \<open>two_pow e \<le> x < two_pow (e + 1)\<close>; \<open>rne\<close> rounds to the nearest integer, a
  tie to the even one.
\<close>

datatype number = Fin rat | PInf | NInf | NaN

definition two_pow :: "int \<Rightarrow> rat" where
  "two_pow e = 2 powi e"

definition ilog2 :: "rat \<Rightarrow> int" where
  "ilog2 x =
     (if 1 \<le> x then bitlen \<lfloor>x\<rfloor> - 1
      else (let k = bitlen \<lfloor>1 / x\<rfloor> - 1 in if x * two_pow k = 1 then - k else - k - 1))"

definition rne :: "rat \<Rightarrow> int" where
  "rne t =
     (let n = \<lfloor>t\<rfloor>; f = t - of_int n
      in if f < 1 / 2 then n else if 1 / 2 < f then n + 1 else if even n then n else n + 1)"

text \<open>
  The result of an arithmetic operation is the exact result rounded to the nearest double,
  ties to even. Between \<open>two_pow e\<close> and \<open>two_pow (e + 1)\<close> the doubles are
  \<open>two_pow (e - 52)\<close> apart, and \<open>two_pow (- 1074)\<close> apart below \<open>two_pow (- 1022)\<close>; a
  rounded magnitude that needs the exponent 1024 is an infinity.
\<close>

definition round64 :: "rat \<Rightarrow> number" where
  "round64 x =
     (if x = 0 then Fin 0
      else (let q = two_pow (max (ilog2 \<bar>x\<bar>) (- 1022) - 52);
                y = of_int (rne (\<bar>x\<bar> / q)) * q
            in if 1024 \<le> ilog2 y then (if 0 < x then PInf else NInf)
               else Fin (sgn x * y)))"

text \<open>
  The finite doubles: an integer below \<open>2 ^ 53\<close> in magnitude times a power of two between
  \<open>two_pow (- 1074)\<close> and \<open>two_pow 971\<close>.
\<close>

definition representable :: "rat \<Rightarrow> bool" where
  "representable y \<longleftrightarrow>
     (\<exists>m e. y = of_int m * two_pow e \<and> \<bar>m\<bar> < 2 ^ 53 \<and> - 1074 \<le> e \<and> e \<le> 971)"

text \<open>\<^verbatim>\<open>a + b\<close> and \<^verbatim>\<open>a * b\<close> on numbers.\<close>

fun num_add :: "number \<Rightarrow> number \<Rightarrow> number" where
  "num_add (Fin a) (Fin b) = round64 (a + b)"
| "num_add NaN y = NaN"
| "num_add x NaN = NaN"
| "num_add PInf NInf = NaN"
| "num_add NInf PInf = NaN"
| "num_add PInf y = PInf"
| "num_add NInf y = NInf"
| "num_add x PInf = PInf"
| "num_add x NInf = NInf"

fun num_sgn :: "number \<Rightarrow> int" where
  "num_sgn (Fin a) = (if a = 0 then 0 else if 0 < a then 1 else - 1)"
| "num_sgn PInf = 1"
| "num_sgn NInf = - 1"
| "num_sgn NaN = 0"

fun num_mul :: "number \<Rightarrow> number \<Rightarrow> number" where
  "num_mul (Fin a) (Fin b) = round64 (a * b)"
| "num_mul NaN y = NaN"
| "num_mul x NaN = NaN"
| "num_mul x y =
     (if num_sgn x * num_sgn y = 0 then NaN
      else if 0 < num_sgn x * num_sgn y then PInf else NInf)"

text \<open>
  \<open>running_sum vs\<close> is what \<^verbatim>\<open>let t = 0; vs.forEach(v => { t += v })\<close> leaves in
  \<^verbatim>\<open>t\<close>: the values added one after the other, each addition rounded. Double addition
  is not associative, so the order and the grouping matter.
\<close>

definition running_sum :: "number list \<Rightarrow> number" where
  "running_sum vs = foldl num_add (Fin 0) vs"







subsection \<open>Values and property reads\<close>

datatype js =
    JUndefined
  | JNull
  | JBool bool
  | JNum number
  | JStr string
  | JArr "js list"
  | JObj "(string \<times> js) list"

text \<open>
  A run of the source either returns or throws a \<^verbatim>\<open>TypeError\<close> (property read on
  null or undefined, call of something that is not a function). \<open>Unmodelled\<close> marks the
  runs whose JavaScript behaviour lies outside this embedding: string concatenation by
  \<^verbatim>\<open>+\<close>, conversion of strings, arrays and objects to numbers, conversion of anything
  but a string to a property key, and property reads on a built-in function. On those runs
  the model says nothing about the source.
\<close>

datatype error = TypeError | Unmodelled

definition and_then :: "error + 'a \<Rightarrow> ('a \<Rightarrow> error + 'b) \<Rightarrow> error + 'b" where
  "and_then m f = (case m of Inl e \<Rightarrow> Inl e | Inr x \<Rightarrow> f x)"

text \<open>Truthiness, as used by \<^verbatim>\<open>!x\<close>, \<^verbatim>\<open>x || y\<close> and \<^verbatim>\<open>x && y\<close>.\<close>

fun truthy :: "js \<Rightarrow> bool" where
  "truthy JUndefined = False"
| "truthy JNull = False"
| "truthy (JBool b) = b"
| "truthy (JNum (Fin r)) = (r \<noteq> 0)"
| "truthy (JNum NaN) = False"
| "truthy (JNum PInf) = True"
| "truthy (JNum NInf) = True"
| "truthy (JStr s) = (s \<noteq> [])"
| "truthy (JArr xs) = True"
| "truthy (JObj kvs) = True"

definition js_or :: "js \<Rightarrow> js \<Rightarrow> js" where
  "js_or a b = (if truthy a then a else b)"

text \<open>
  \<^verbatim>\<open>x.f\<close> for the property names the source reads from a payload (\<^verbatim>\<open>name\<close>,
  \<^verbatim>\<open>id\<close>, \<^verbatim>\<open>portfolio_item_list\<close>, \<^verbatim>\<open>stats\<close>, \<^verbatim>\<open>net_usd_value\<close>, \<^verbatim>\<open>detail\<close>, the
  token lists, \<^verbatim>\<open>token\<close>, \<^verbatim>\<open>symbol\<close>, \<^verbatim>\<open>amount\<close>, \<^verbatim>\<open>price\<close>, \<^verbatim>\<open>data\<close>,
  \<^verbatim>\<open>attributes\<close>, \<^verbatim>\<open>protocol\<close>, \<^verbatim>\<open>value\<close>, \<^verbatim>\<open>position_type\<close>,
  \<^verbatim>\<open>fungible_info\<close>, \<^verbatim>\<open>quantity\<close>, \<^verbatim>\<open>float\<close>, \<^verbatim>\<open>flags\<close>): none of them is a
  built-in property of a primitive, an array or \<^verbatim>\<open>Object.prototype\<close>, so the read
  throws on null and undefined, finds an own property of an object, and is
  \<^verbatim>\<open>undefined\<close> everywhere else.
\<close>

fun get :: "js \<Rightarrow> string \<Rightarrow> error + js" where
  "get JUndefined f = Inl TypeError"
| "get JNull f = Inl TypeError"
| "get (JObj kvs) f = Inr (case map_of kvs f of Some v \<Rightarrow> v | None \<Rightarrow> JUndefined)"
| "get x f = Inr JUndefined"

text \<open>Optional chaining \<^verbatim>\<open>x?.f\<close>: \<^verbatim>\<open>undefined\<close> instead of a throw.\<close>

definition opt_get :: "js \<Rightarrow> string \<Rightarrow> js" where
  "opt_get x f = (case get x f of Inl e \<Rightarrow> JUndefined | Inr v \<Rightarrow> v)"

text \<open>
  A string is a list of code units below 256. \<^verbatim>\<open>String.prototype.trim\<close> strips white
  space and line terminators from both ends; below 256 these are tab, line feed, vertical
  tab, form feed, carriage return, space and the no-break space. Calling \<^verbatim>\<open>.trim()\<close>
  on a value that is not a string throws: null and undefined have no properties, and no
  other parsed value has a callable \<^verbatim>\<open>trim\<close>.
\<close>

definition is_space :: "char \<Rightarrow> bool" where
  "is_space c = (c \<in> set [CHR 0x09, CHR 0x0A, CHR 0x0B, CHR 0x0C, CHR 0x0D, CHR 0x20, CHR 0xA0])"

definition trim :: "string \<Rightarrow> string" where
  "trim s = rev (dropWhile is_space (rev (dropWhile is_space s)))"

fun call_trim :: "js \<Rightarrow> error + string" where
  "call_trim (JStr s) = Inr (trim s)"
| "call_trim x = Inl TypeError"

text \<open>
  \<^verbatim>\<open>xs.forEach(f)\<close> with the state that \<^verbatim>\<open>f\<close> mutates passed along. Only arrays
  have \<^verbatim>\<open>forEach\<close>; a throw inside the callback ends the loop.
\<close>

fun foldM :: "('s \<Rightarrow> 'a \<Rightarrow> error + 's) \<Rightarrow> 'a list \<Rightarrow> 's \<Rightarrow> error + 's" where
  "foldM f [] s = Inr s"
| "foldM f (x # xs) s = (case f s x of Inl e \<Rightarrow> Inl e | Inr s' \<Rightarrow> foldM f xs s')"

fun forEach :: "js \<Rightarrow> ('s \<Rightarrow> js \<Rightarrow> error + 's) \<Rightarrow> 's \<Rightarrow> error + 's" where
  "forEach (JArr xs) f s = foldM f xs s"
| "forEach x f s = Inl TypeError"

text \<open>
  Numeric conversion. \<^verbatim>\<open>a * b\<close> converts both operands to numbers; \<^verbatim>\<open>n += v\<close> with a
  number \<^verbatim>\<open>n\<close> adds numbers unless \<^verbatim>\<open>v\<close> is a string, an array or an object, where
  it concatenates strings.
\<close>

fun ToNumber :: "js \<Rightarrow> error + number" where
  "ToNumber JUndefined = Inr NaN"
| "ToNumber JNull = Inr (Fin 0)"
| "ToNumber (JBool b) = Inr (Fin (if b then 1 else 0))"
| "ToNumber (JNum n) = Inr n"
| "ToNumber x = Inl Unmodelled"

definition js_mul :: "js \<Rightarrow> js \<Rightarrow> error + number" where
  "js_mul a b = and_then (ToNumber a) (\<lambda>x. and_then (ToNumber b) (\<lambda>y. Inr (num_mul x y)))"

text \<open>
  \<^verbatim>\<open>obj[key]\<close> on an object literal with a computed key. The read finds an own
  property, or else a property that the object inherits from \<^verbatim>\<open>Object.prototype\<close>: one
  of the built-in functions (\<^verbatim>\<open>constructor\<close>, \<^verbatim>\<open>toString\<close>, ...) or, under
  \<^verbatim>\<open>__proto__\<close>, the prototype object itself. All of these are truthy. Only when there
  is neither is the result \<^verbatim>\<open>undefined\<close>.
\<close>

definition Object_prototype_keys :: "string list" where
  "Object_prototype_keys =
     [''constructor'', ''__defineGetter__'', ''__defineSetter__'', ''hasOwnProperty'',
      ''__lookupGetter__'', ''__lookupSetter__'', ''isPrototypeOf'', ''propertyIsEnumerable'',
      ''toString'', ''valueOf'', ''__proto__'', ''toLocaleString'']"

datatype 'v property = Own 'v | Inherited | Absent

definition lookup :: "(string \<times> 'v) list \<Rightarrow> string \<Rightarrow> 'v property" where
  "lookup obj key =
     (case map_of obj key of
        Some v \<Rightarrow> Own v
      | None \<Rightarrow> if key \<in> set Object_prototype_keys then Inherited else Absent)"

text \<open>A value used as a property key or stored as a name must be a string here.\<close>

fun as_string :: "js \<Rightarrow> error + string" where
  "as_string (JStr s) = Inr s"
| "as_string x = Inl Unmodelled"

section \<open>The normalized shape\<close>

text \<open>
  The object literals the normalizers build. \<open>a_type\<close> is the property the source calls
  \<^verbatim>\<open>type\<close> (the specification's \<^emph>\<open>role\<close>); \<open>a_flags\<close> is \<open>None\<close> where the literal
  has no \<^verbatim>\<open>flags\<close> property at all (provider A). \<open>protocols\<close> lists the buckets in
  insertion order (JavaScript enumerates names that are array indices first; nothing
  below depends on the order of different names).
\<close>

record asset =
  a_symbol :: string
  a_amount :: js
  a_price :: js
  a_value :: js
  a_type :: js
  a_flags :: "js option"

record protocol =
  p_name :: string
  p_id :: js
  p_value :: number
  p_assets :: "asset list"

record snapshot =
  protocols :: "(string \<times> protocol) list"
  totalValue :: number

definition empty_snapshot :: snapshot where
  "empty_snapshot = \<lparr>protocols = [], totalValue = Fin 0\<rparr>"

text \<open>
  \<^verbatim>\<open>if (!protocols[protoName]) protocols[protoName] = {name, id, value: 0, assets: []}\<close>:
  a bucket is an object and an inherited property is a function or an object, all truthy,
  so the bucket is created exactly when the name is neither a bucket nor inherited.
  Nothing here throws.
\<close>

definition ensure_bucket :: "string \<Rightarrow> js \<Rightarrow> snapshot \<Rightarrow> error + snapshot" where
  "ensure_bucket protoName ident st =
     (case lookup (protocols st) protoName of
        Absent \<Rightarrow> Inr (st\<lparr>protocols := protocols st @
                  [(protoName, \<lparr>p_name = protoName, p_id = ident, p_value = Fin 0, p_assets = []\<rparr>)]\<rparr>)
      | _ \<Rightarrow> Inr st)"

definition in_bucket :: "string \<Rightarrow> (protocol \<Rightarrow> protocol) \<Rightarrow> snapshot \<Rightarrow> snapshot" where
  "in_bucket protoName f st =
     st\<lparr>protocols := map (\<lambda>(k, b). if k = protoName then (k, f b) else (k, b)) (protocols st)\<rparr>"

text \<open>
  \<^verbatim>\<open>protocols[protoName].value += val; totalValue += val;\<close>
  When \<^verbatim>\<open>protocols[protoName]\<close> is an inherited built-in, the first statement stores
  \<^verbatim>\<open>undefined + val\<close>, which is \<^verbatim>\<open>NaN\<close>, in a \<^verbatim>\<open>value\<close> property of the built-in
  (of \<^verbatim>\<open>Object.prototype\<close> itself for \<^verbatim>\<open>__proto__\<close>), and leaves \<^verbatim>\<open>protocols\<close> as
  it is. That store is not kept in the state: the only later reads that could see it are
  this same statement, and \<^verbatim>\<open>attrs.value || 0\<close> on an object without a \<^verbatim>\<open>value\<close> of
  its own, where \<^verbatim>\<open>NaN\<close> is as falsy as \<^verbatim>\<open>undefined\<close>.
\<close>

definition add_value :: "string \<Rightarrow> js \<Rightarrow> snapshot \<Rightarrow> error + snapshot" where
  "add_value protoName val st =
     (case lookup (protocols st) protoName of
        Absent \<Rightarrow> Inl TypeError
      | Own b \<Rightarrow>
          and_then (ToNumber val) (\<lambda>n.
            Inr ((in_bucket protoName (\<lambda>b. b\<lparr>p_value := num_add (p_value b) n\<rparr>) st)
                   \<lparr>totalValue := num_add (totalValue st) n\<rparr>))
      | Inherited \<Rightarrow>
          and_then (ToNumber val) (\<lambda>n. Inr (st\<lparr>totalValue := num_add (totalValue st) n\<rparr>)))"

text \<open>
  \<^verbatim>\<open>protocols[protoName].assets.push({...})\<close>. The callee is evaluated before the
  argument: an inherited built-in has no \<^verbatim>\<open>assets\<close>, so reading \<^verbatim>\<open>push\<close> from
  \<^verbatim>\<open>undefined\<close> throws before the object literal \<open>literal\<close> is evaluated.
\<close>

definition push_asset :: "string \<Rightarrow> error + asset \<Rightarrow> snapshot \<Rightarrow> error + snapshot" where
  "push_asset protoName literal st =
     (case lookup (protocols st) protoName of
        Own b \<Rightarrow>
          and_then literal (\<lambda>a.
            Inr (in_bucket protoName (\<lambda>b. b\<lparr>p_assets := p_assets b @ [a]\<rparr>) st))
      | _ \<Rightarrow> Inl TypeError)"

section \<open>Provider A: \<^verbatim>\<open>normalizeDeBank\<close>\<close>

text \<open>
  The object literal pushed for one token. The source writes it out once per token
  list; the copies differ in the \<^verbatim>\<open>type\<close> string and in the factor \<^verbatim>\<open>* -1\<close> of the
  borrow list:
  \<^verbatim>\<open>{ symbol: token.symbol.trim(), amount: token.amount, price: token.price,
     value: (token.amount * token.price) [* -1], type: '...' }\<close>
\<close>

definition token_asset :: "string \<Rightarrow> bool \<Rightarrow> js \<Rightarrow> error + asset" where
  "token_asset typ negated token =
     and_then (get token ''symbol'') (\<lambda>s.
     and_then (call_trim s) (\<lambda>symbol.
     and_then (get token ''amount'') (\<lambda>amount.
     and_then (get token ''price'') (\<lambda>price.
     and_then (js_mul amount price) (\<lambda>v.
       Inr \<lparr>a_symbol = symbol, a_amount = amount, a_price = price,
            a_value = JNum (if negated then num_mul v (Fin (- 1)) else v),
            a_type = JStr typ, a_flags = None\<rparr>)))))"

text \<open>
  \<^verbatim>\<open>if (item.detail && item.detail.L) item.detail.L.forEach(token => ...push(...))\<close>
\<close>

definition token_list :: "js \<Rightarrow> string \<Rightarrow> string \<Rightarrow> bool \<Rightarrow> string \<Rightarrow> snapshot \<Rightarrow> error + snapshot" where
  "token_list detail field typ negated protoName st =
     (if \<not> truthy detail then Inr st
      else and_then (get detail field) (\<lambda>tokens.
        if \<not> truthy tokens then Inr st
        else forEach tokens
               (\<lambda>st' token. push_asset protoName (token_asset typ negated token) st') st))"

text \<open>
  The vesting block exists only in the later copy of the script (\<^verbatim>\<open>part_003\<close>):
  \<^verbatim>\<open>if (item.detail && item.detail.token) { const token = item.detail.token; ...push(...) }\<close>
\<close>

definition vesting_token :: "js \<Rightarrow> string \<Rightarrow> snapshot \<Rightarrow> error + snapshot" where
  "vesting_token detail protoName st =
     (if \<not> truthy detail then Inr st
      else and_then (get detail ''token'') (\<lambda>token.
        if \<not> truthy token then Inr st
        else push_asset protoName (token_asset ''vesting'' False token) st))"

text \<open>
  The body of \<^verbatim>\<open>proto.portfolio_item_list.forEach(item => ...)\<close>. The flag \<open>vesting\<close>
  selects the copy of the script: \<open>False\<close> is \<^verbatim>\<open>src/scripts/generate_comparison.js\<close>,
  \<open>True\<close> is \<^verbatim>\<open>part_003\<close>, which has the vesting block after the three token lists.
\<close>

definition portfolio_item :: "bool \<Rightarrow> string \<Rightarrow> snapshot \<Rightarrow> js \<Rightarrow> error + snapshot" where
  "portfolio_item vesting protoName st item =
     and_then (get item ''stats'') (\<lambda>stats.
     and_then (get stats ''net_usd_value'') (\<lambda>nuv.
     and_then (add_value protoName (js_or nuv (JNum (Fin 0))) st) (\<lambda>st1.
     and_then (get item ''detail'') (\<lambda>detail.
     and_then (token_list detail ''supply_token_list'' ''supply'' False protoName st1) (\<lambda>st2.
     and_then (token_list detail ''borrow_token_list'' ''borrow'' True protoName st2) (\<lambda>st3.
     and_then (token_list detail ''reward_token_list'' ''reward'' False protoName st3) (\<lambda>st4.
       if vesting then vesting_token detail protoName st4 else Inr st4)))))))"

text \<open>The body of \<^verbatim>\<open>chainData.forEach(proto => ...)\<close>.\<close>

definition protocol_record :: "bool \<Rightarrow> snapshot \<Rightarrow> js \<Rightarrow> error + snapshot" where
  "protocol_record vesting st proto =
     and_then (get proto ''name'') (\<lambda>nm.
     and_then (as_string (js_or nm (JStr ''Unknown''))) (\<lambda>protoName.
     and_then (ensure_bucket protoName (opt_get proto ''id'') st) (\<lambda>st1.
     and_then (get proto ''portfolio_item_list'') (\<lambda>items.
       forEach items (portfolio_item vesting protoName) st1))))"

definition normalizeDeBank_with :: "bool \<Rightarrow> js \<Rightarrow> error + snapshot" where
  "normalizeDeBank_with vesting chainData =
     (case chainData of
        JArr protos \<Rightarrow> foldM (protocol_record vesting) protos empty_snapshot
      | _ \<Rightarrow> Inr empty_snapshot)"

definition normalizeDeBank :: "js \<Rightarrow> error + snapshot" where
  "normalizeDeBank = normalizeDeBank_with False"

definition normalizeDeBank_part003 :: "js \<Rightarrow> error + snapshot" where
  "normalizeDeBank_part003 = normalizeDeBank_with True"

section \<open>Provider B: \<^verbatim>\<open>normalizeZerion\<close>\<close>

text \<open>
  The alias table \<^verbatim>\<open>PROTOCOL_NAME_MAP\<close> (chain, then provider-B name, then provider-A
  name), in the two copies of the script.
\<close>

type_synonym alias_table = "(string \<times> (string \<times> string) list) list"

definition PROTOCOL_NAME_MAP :: alias_table where
  "PROTOCOL_NAME_MAP =
     [(''binance-smart-chain'', [(''Helio'', ''Lista DAO'')]),
      (''ethereum'',
         [(''Morpho Blue'', ''Morpho''), (''Tokemak'', ''AUTO Finance''), (''Spool'', ''Yelay''),
          (''Euler v2'', ''Euler''), (''Compound V2'', ''Compound''), (''MakerDAO'', ''Maker'')]),
      (''optimism'', [(''Velodrome V2'', ''Velodrome'')])]"

definition PROTOCOL_NAME_MAP_part003 :: alias_table where
  "PROTOCOL_NAME_MAP_part003 =
     [(''binance-smart-chain'', [(''Helio'', ''Lista DAO'')]),
      (''ethereum'',
         [(''Morpho Blue'', ''Morpho''), (''Tokemak'', ''AUTO Finance''), (''Spool'', ''Yelay''),
          (''Euler v2'', ''Euler''), (''Compound V2'', ''Compound''), (''MakerDAO'', ''Maker''),
          (''ParaSwap'', ''Velora'')]),
      (''optimism'', [(''Velodrome'', ''Velodrome V2''), (''Velodrome V2'', ''Velodrome'')])]"

text \<open>
  The alias step, with the table made a parameter:
  \<^verbatim>\<open>if (chainId && PROTOCOL_NAME_MAP[chainId] && PROTOCOL_NAME_MAP[chainId][protoName])
     protoName = PROTOCOL_NAME_MAP[chainId][protoName];\<close>
  The chain key is a string (the assembler passes a value of \<^verbatim>\<open>CHAIN_MAP\<close>); the empty
  string is falsy, and so is an empty alias. Afterwards \<^verbatim>\<open>protoName\<close> is a string, or,
  when the chain's table inherits a property of that name, the built-in found there
  (\<open>Builtin\<close>, by the name under which \<^verbatim>\<open>Object.prototype\<close> has it). A chain key that
  the table itself inherits leads to a property read on a built-in.
\<close>

datatype resolved = Name string | Builtin string

definition resolveAlias :: "alias_table \<Rightarrow> string \<Rightarrow> string \<Rightarrow> error + resolved" where
  "resolveAlias tbl chainId protoName =
     (if chainId = [] then Inr (Name protoName)
      else case lookup tbl chainId of
             Absent \<Rightarrow> Inr (Name protoName)
           | Inherited \<Rightarrow> Inl Unmodelled
           | Own names \<Rightarrow>
               (case lookup names protoName of
                  Absent \<Rightarrow> Inr (Name protoName)
                | Inherited \<Rightarrow> Inr (Builtin protoName)
                | Own a \<Rightarrow> if a = [] then Inr (Name protoName) else Inr (Name a)))"

text \<open>
  \<^verbatim>\<open>protocols[protoName]\<close> and \<^verbatim>\<open>name: protoName\<close> after the alias step. A built-in
  would be converted to a property key by its source text, which the language leaves to
  the implementation.
\<close>

fun bucket_name :: "resolved \<Rightarrow> error + string" where
  "bucket_name (Name s) = Inr s"
| "bucket_name (Builtin f) = Inl Unmodelled"

text \<open>
  The asset literal of a position, from the lines after the bucket update:
  \<^verbatim>\<open>let type = attrs.position_type;
     if (type === 'locked' || type === 'staked') type = 'supply';
     let symbol = attrs.fungible_info?.symbol || '?';  symbol = symbol.trim();
     { symbol, amount: attrs.quantity?.float || 0, price: attrs.price || 0, value: val,
       type, flags: attrs.fungible_info?.flags }\<close>
\<close>

definition position_asset :: "js \<Rightarrow> js \<Rightarrow> error + asset" where
  "position_asset attrs val =
     and_then (get attrs ''position_type'') (\<lambda>pt.
     and_then (get attrs ''fungible_info'') (\<lambda>fungible_info.
     and_then (call_trim (js_or (opt_get fungible_info ''symbol'') (JStr ''?''))) (\<lambda>symbol.
     and_then (get attrs ''quantity'') (\<lambda>quantity.
     and_then (get attrs ''price'') (\<lambda>price.
       Inr \<lparr>a_symbol = symbol,
            a_amount = js_or (opt_get quantity ''float'') (JNum (Fin 0)),
            a_price = js_or price (JNum (Fin 0)),
            a_value = val,
            a_type = (if pt = JStr ''locked'' \<or> pt = JStr ''staked'' then JStr ''supply'' else pt),
            a_flags = Some (opt_get fungible_info ''flags'')\<rparr>)))))"

text \<open>The body of \<^verbatim>\<open>items.forEach(pos => ...)\<close>.\<close>

definition position :: "alias_table \<Rightarrow> string \<Rightarrow> snapshot \<Rightarrow> js \<Rightarrow> error + snapshot" where
  "position tbl chainId st pos =
     and_then (get pos ''attributes'') (\<lambda>attrs.
     if \<not> truthy attrs then Inr st else
     and_then (get attrs ''protocol'') (\<lambda>protocol.
     if \<not> truthy protocol then Inr st else
     and_then (as_string protocol) (\<lambda>name0.
     and_then (resolveAlias tbl chainId name0) (\<lambda>resolved.
     and_then (bucket_name resolved) (\<lambda>protoName.
     and_then (ensure_bucket protoName (JStr protoName) st) (\<lambda>st1.
     and_then (get attrs ''value'') (\<lambda>v.
     and_then (add_value protoName (js_or v (JNum (Fin 0))) st1) (\<lambda>st2.
       push_asset protoName (position_asset attrs (js_or v (JNum (Fin 0)))) st2))))))))"

text \<open>
  \<^verbatim>\<open>let items = []; if (raw.data && Array.isArray(raw.data)) items = raw.data;
     else if (Array.isArray(raw)) items = raw;\<close>
\<close>

definition zerion_items :: "js \<Rightarrow> error + js list" where
  "zerion_items chainDataRaw =
     and_then (get chainDataRaw ''data'') (\<lambda>d.
       case d of
         JArr xs \<Rightarrow> Inr xs
       | _ \<Rightarrow> (case chainDataRaw of JArr xs \<Rightarrow> Inr xs | _ \<Rightarrow> Inr []))"

definition normalizeZerion :: "alias_table \<Rightarrow> js \<Rightarrow> string \<Rightarrow> error + snapshot" where
  "normalizeZerion tbl chainDataRaw chainId =
     and_then (zerion_items chainDataRaw) (\<lambda>items.
       foldM (position tbl chainId) items empty_snapshot)"

section \<open>The assembler: \<^verbatim>\<open>main\<close>\<close>

definition CHAIN_MAP :: "(string \<times> string) list" where
  "CHAIN_MAP =
     [(''eth'', ''ethereum''), (''bsc'', ''binance-smart-chain''), (''matic'', ''polygon''),
      (''ftm'', ''fantom''), (''avax'', ''avalanche''), (''op'', ''optimism''),
      (''arb'', ''arbitrum''), (''base'', ''base''), (''linea'', ''linea''),
      (''era'', ''zksync-era''), (''scrl'', ''scroll'')]"

text \<open>
  \<^verbatim>\<open>TARGET_ADDRESSES\<close> of \<^verbatim>\<open>part_003\<close>, before \<^verbatim>\<open>.map(addr => addr.toLowerCase())\<close>.
  \<open>toLowerCase\<close> is the ASCII part of the JavaScript method.
\<close>

definition toLowerCase :: "string \<Rightarrow> string" where
  "toLowerCase s =
     map (\<lambda>c. case map_of (zip ''ABCDEFGHIJKLMNOPQRSTUVWXYZ'' ''abcdefghijklmnopqrstuvwxyz'') c of
                 Some l \<Rightarrow> l | None \<Rightarrow> c) s"

definition TARGET_ADDRESSES :: "string list" where
  "TARGET_ADDRESSES = map toLowerCase
     [''0x9d17bb55b57b31329cf01aa7017948e398b277bc'',
      ''0x5c9e30def85334e587cf36eb07bdd6a72bf1452d'',
      ''0xd92293daca6bbed57f8cb6d498b48ea93e035e99'',
      ''0x15b325660a1C4a9582a7d834C31119C0CB9e3A42'',
      ''0x47441bd9fb3441370cb5b6c4684a0104353aec66'',
      ''0x011b0a055e02425461a1ae95b30f483c4ff05be7'',
      ''0x0b32aa5c1e71715206fe29b7badb21ad95f272c0'',
      ''0x87f16c31e32ae543278f5194cf94862f1cb1eee0'',
      ''0xbbbc35dfac3a00a03a8fde3540eca4f0e15c5e64'',
      ''0x4e5ed30e3b4eb39abce3c150f31e180a3ae5806e'',
      ''0x84a6a7c0674a3aa03e09c026600cb46181821f07'',
      ''0x5c051c0ff69b6f5fdd47e847eb370dd48726ec4d'',
      ''0x7bfee91193d9df2ac0bfe90191d40f23c773c060'',
      ''0xde6b2a06407575b98724818445178c1f5fd53361'',
      ''0xbdfa4f4492dd7b7cf211209c4791af8d52bf5c50'',
      ''0x33eecc48943aaeabb5328a25ff28eb85f67945c2'',
      ''0x3e8734ec146c981e3ed1f6b582d447dde701d90c'']"

text \<open>
  The part of the file system that \<^verbatim>\<open>main\<close> reads: the directory names under the
  provider-A data directory (\<^verbatim>\<open>getDirectories(DATA_DIR_DEBANK)\<close>) and, per provider,
  the file \<^verbatim>\<open>address/chain.json\<close>. A file that exists either parses or does not
  (\<open>Garbled\<close>: \<^verbatim>\<open>readJson\<close> catches the exception and returns null).
\<close>

datatype raw_file = Json js | Garbled

record files =
  debank_dirs :: "string list"
  debank_file :: "string \<Rightarrow> string \<Rightarrow> raw_file option"
  zerion_file :: "string \<Rightarrow> string \<Rightarrow> raw_file option"

definition existsSync :: "raw_file option \<Rightarrow> bool" where
  "existsSync f = (f \<noteq> None)"

definition readJson :: "raw_file option \<Rightarrow> js" where
  "readJson f = (case f of None \<Rightarrow> JNull | Some (Json v) \<Rightarrow> v | Some Garbled \<Rightarrow> JNull)"

record comparison =
  debank :: snapshot
  zerion :: snapshot

text \<open>\<^verbatim>\<open>obj[key] = v\<close> on a plain object: replace the property or add it at the end.\<close>

primrec assign :: "string \<Rightarrow> 'v \<Rightarrow> (string \<times> 'v) list \<Rightarrow> (string \<times> 'v) list" where
  "assign k v [] = [(k, v)]"
| "assign k v (p # ps) = (if fst p = k then (k, v) # ps else p # assign k v ps)"

text \<open>
  The body of \<^verbatim>\<open>Object.keys(CHAIN_MAP).forEach(debankChainId => ...)\<close> for one address;
  \<open>perChain\<close> is \<^verbatim>\<open>result[address]\<close>. The flag \<open>part003\<close> selects the copy of the
  script: \<^verbatim>\<open>part_003\<close> has \<^verbatim>\<open>readJson(debankFile) || []\<close>, its own alias table and
  the vesting block; \<^verbatim>\<open>src/scripts/generate_comparison.js\<close> passes
  \<^verbatim>\<open>readJson(debankFile)\<close> as it is. Both pass \<^verbatim>\<open>readJson(zerionFile) || []\<close> to
  \<^verbatim>\<open>normalizeZerion\<close>. The object literal evaluates the provider-A side first; a throw
  in either normalizer is not caught and ends \<^verbatim>\<open>main\<close>.
\<close>

definition debank_argument :: "bool \<Rightarrow> raw_file option \<Rightarrow> js" where
  "debank_argument part003 debankFile =
     (if part003 then js_or (readJson debankFile) (JArr []) else readJson debankFile)"

definition zerion_argument :: "raw_file option \<Rightarrow> js" where
  "zerion_argument zerionFile = js_or (readJson zerionFile) (JArr [])"

definition alias_table_of :: "bool \<Rightarrow> alias_table" where
  "alias_table_of part003 = (if part003 then PROTOCOL_NAME_MAP_part003 else PROTOCOL_NAME_MAP)"

definition chain_entry ::
  "bool \<Rightarrow> files \<Rightarrow> string \<Rightarrow> (string \<times> comparison) list \<Rightarrow> string \<times> string
     \<Rightarrow> error + (string \<times> comparison) list" where
  "chain_entry part003 fs address perChain dz =
     (let debankChainId = fst dz; zerionChainId = snd dz;
          debankFile = debank_file fs address debankChainId;
          zerionFile = zerion_file fs address zerionChainId
      in if \<not> existsSync debankFile \<and> \<not> existsSync zerionFile then Inr perChain
         else
           and_then (normalizeDeBank_with part003 (debank_argument part003 debankFile)) (\<lambda>d.
           and_then (normalizeZerion (alias_table_of part003) (zerion_argument zerionFile)
                       zerionChainId) (\<lambda>z.
             Inr (assign zerionChainId \<lparr>debank = d, zerion = z\<rparr> perChain))))"

text \<open>
  The body of \<^verbatim>\<open>addresses.forEach(address => ...)\<close>. \<^verbatim>\<open>result[address] = {}\<close> adds
  a property unless the name is \<^verbatim>\<open>__proto__\<close>, which would set the prototype instead;
  the chain loop then fills that object.
\<close>

definition address_entry ::
  "bool \<Rightarrow> files \<Rightarrow> (string \<times> (string \<times> comparison) list) list \<Rightarrow> string
     \<Rightarrow> error + (string \<times> (string \<times> comparison) list) list" where
  "address_entry part003 fs result address =
     (if address = ''__proto__'' then Inl Unmodelled
      else and_then (foldM (chain_entry part003 fs address) CHAIN_MAP [])
             (\<lambda>perChain. Inr (assign address perChain result)))"

text \<open>
  \<^verbatim>\<open>main\<close> up to the value handed to \<^verbatim>\<open>JSON.stringify\<close>. In \<^verbatim>\<open>part_003\<close> the
  addresses are first filtered:
  \<^verbatim>\<open>addresses.filter(addr => TARGET_ADDRESSES.includes(addr.toLowerCase()))\<close>.
\<close>

definition main_with :: "bool \<Rightarrow> files \<Rightarrow> error + (string \<times> (string \<times> comparison) list) list" where
  "main_with part003 fs =
     (let addresses =
            (if part003 \<and> length TARGET_ADDRESSES > 0
             then filter (\<lambda>addr. toLowerCase addr \<in> set TARGET_ADDRESSES) (debank_dirs fs)
             else debank_dirs fs)
      in foldM (address_entry part003 fs) addresses [])"

definition main :: "files \<Rightarrow> error + (string \<times> (string \<times> comparison) list) list" where
  "main = main_with False"

definition main_part003 :: "files \<Rightarrow> error + (string \<times> (string \<times> comparison) list) list" where
  "main_part003 = main_with True"


section \<open>What a run groups together\<close>

text \<open>
  An entry records what one input element contributes: the bucket name, the id the bucket
  gets if this element creates it, the values added (in order) to the bucket value and to
  \<open>totalValue\<close>, and the assets appended.
\<close>

record entry =
  e_name :: string
  e_id :: js
  e_values :: "number list"
  e_assets :: "asset list"

text \<open>
  Provider A. \<open>net_value\<close> is \<^verbatim>\<open>item.stats.net_usd_value || 0\<close> as a number;
  \<open>item_assets\<close> lists the assets of the token lists of an item in the order the source
  pushes them; \<open>record_entry\<close> is the entry of a protocol record: one value per portfolio
  item.
\<close>

definition net_value :: "js \<Rightarrow> number" where
  "net_value item =
     (case and_then (get item ''stats'') (\<lambda>stats.
           and_then (get stats ''net_usd_value'') (\<lambda>nuv.
             ToNumber (js_or nuv (JNum (Fin 0))))) of
        Inr n \<Rightarrow> n
      | Inl e \<Rightarrow> NaN)"

definition successes :: "(error + 'a) list \<Rightarrow> 'a list" where
  "successes rs = concat (map (\<lambda>r. case r of Inr a \<Rightarrow> [a] | Inl e \<Rightarrow> []) rs)"

definition list_assets :: "js \<Rightarrow> string \<Rightarrow> string \<Rightarrow> bool \<Rightarrow> asset list" where
  "list_assets detail field typ negated =
     (if truthy detail
      then (case get detail field of
              Inr (JArr tokens) \<Rightarrow> successes (map (token_asset typ negated) tokens)
            | _ \<Rightarrow> [])
      else [])"

definition vesting_assets :: "js \<Rightarrow> asset list" where
  "vesting_assets detail =
     (if truthy detail \<and> truthy (opt_get detail ''token'')
      then successes [token_asset ''vesting'' False (opt_get detail ''token'')]
      else [])"

definition item_assets :: "bool \<Rightarrow> js \<Rightarrow> asset list" where
  "item_assets vesting item =
     (let detail = opt_get item ''detail''
      in list_assets detail ''supply_token_list'' ''supply'' False @
         list_assets detail ''borrow_token_list'' ''borrow'' True @
         list_assets detail ''reward_token_list'' ''reward'' False @
         (if vesting then vesting_assets detail else []))"

definition protoName_of :: "js \<Rightarrow> string" where
  "protoName_of proto =
     (case and_then (get proto ''name'') (\<lambda>nm. as_string (js_or nm (JStr ''Unknown''))) of
        Inr k \<Rightarrow> k
      | Inl e \<Rightarrow> [])"

definition items_of :: "js \<Rightarrow> js list" where
  "items_of proto = (case get proto ''portfolio_item_list'' of Inr (JArr items) \<Rightarrow> items | _ \<Rightarrow> [])"

definition record_entry :: "bool \<Rightarrow> js \<Rightarrow> entry" where
  "record_entry vesting proto =
     \<lparr>e_name = protoName_of proto,
      e_id = opt_get proto ''id'',
      e_values = map net_value (items_of proto),
      e_assets = concat (map (item_assets vesting) (items_of proto))\<rparr>"

definition records_of :: "js \<Rightarrow> js list" where
  "records_of chainData = (case chainData of JArr protos \<Rightarrow> protos | _ \<Rightarrow> [])"

text \<open>
  Provider B. A position that has attributes and a protocol contributes one entry, read
  off its fields: the name is the alias-resolved \<^verbatim>\<open>attributes.protocol\<close>, which is also
  the id, the value is \<^verbatim>\<open>attributes.value || 0\<close>, and the one asset is the literal of
  \<open>position_asset\<close>. Any other position contributes nothing.
\<close>

definition position_entries :: "alias_table \<Rightarrow> string \<Rightarrow> js \<Rightarrow> entry list" where
  "position_entries tbl chainId pos =
     (let attrs = opt_get pos ''attributes'';
          val = js_or (opt_get attrs ''value'') (JNum (Fin 0))
      in if \<not> truthy attrs \<or> \<not> truthy (opt_get attrs ''protocol'') then []
         else (case and_then (as_string (opt_get attrs ''protocol'')) (\<lambda>name0.
                    and_then (resolveAlias tbl chainId name0) (\<lambda>resolved.
                    and_then (bucket_name resolved) (\<lambda>k.
                    and_then (ToNumber val) (\<lambda>n.
                    and_then (position_asset attrs val) (\<lambda>a.
                      Inr \<lparr>e_name = k, e_id = JStr k, e_values = [n], e_assets = [a]\<rparr>))))) of
                 Inr e \<Rightarrow> [e]
               | Inl err \<Rightarrow> []))"

definition positions_of :: "js \<Rightarrow> js list" where
  "positions_of chainDataRaw = (case zerion_items chainDataRaw of Inr items \<Rightarrow> items | Inl e \<Rightarrow> [])"

text \<open>
  \<open>grouped es st\<close>: the snapshot \<open>st\<close> is the list of entries \<open>es\<close> grouped by name. There
  is one bucket per name that occurs and that \<^verbatim>\<open>Object.prototype\<close> does not have; its
  id is that of the first entry of the name, its value the running sum of the values of
  the entries of the name, its asset list the concatenation of their asset lists. An
  entry under an inherited name has no assets. \<open>totalValue\<close> is the running sum over all
  entries.
\<close>

definition named :: "string \<Rightarrow> entry list \<Rightarrow> entry list" where
  "named k es = filter (\<lambda>e. e_name e = k) es"

definition bucket_of :: "string \<Rightarrow> entry list \<Rightarrow> protocol" where
  "bucket_of k es =
     \<lparr>p_name = k,
      p_id = e_id (hd (named k es)),
      p_value = running_sum (concat (map e_values (named k es))),
      p_assets = concat (map e_assets (named k es))\<rparr>"

definition grouped :: "entry list \<Rightarrow> snapshot \<Rightarrow> bool" where
  "grouped es st \<longleftrightarrow>
     distinct (map fst (protocols st)) \<and>
     fst ` set (protocols st) = e_name ` set es - set Object_prototype_keys \<and>
     (\<forall>e \<in> set es. e_name e \<in> set Object_prototype_keys \<longrightarrow> e_assets e = []) \<and>
     (\<forall>k b. (k, b) \<in> set (protocols st) \<longrightarrow> b = bucket_of k es) \<and>
     totalValue st = running_sum (concat (map e_values es))"

text \<open>
  A position is filtered out when it has no (truthy) \<^verbatim>\<open>attributes\<close> or its
  \<^verbatim>\<open>protocol\<close> attribute is null, absent or otherwise falsy:
  \<^verbatim>\<open>if (!attrs) return; if (!attrs.protocol) return;\<close>
\<close>

definition filtered_out :: "js \<Rightarrow> bool" where
  "filtered_out pos \<longleftrightarrow>
     (\<exists>attrs. get pos ''attributes'' = Inr attrs \<and>
              (\<not> truthy attrs \<or> \<not> truthy (opt_get attrs ''protocol'')))"

section \<open>The returned objects\<close>

text \<open>
  The JavaScript objects that the records above stand for, with the property names of the
  object literals in the source, in the order they are written.
\<close>

definition asset_obj :: "asset \<Rightarrow> js" where
  "asset_obj a =
     JObj ([(''symbol'', JStr (a_symbol a)), (''amount'', a_amount a), (''price'', a_price a),
            (''value'', a_value a), (''type'', a_type a)] @
           (case a_flags a of None \<Rightarrow> [] | Some f \<Rightarrow> [(''flags'', f)]))"

definition protocol_obj :: "protocol \<Rightarrow> js" where
  "protocol_obj b =
     JObj [(''name'', JStr (p_name b)), (''id'', p_id b), (''value'', JNum (p_value b)),
           (''assets'', JArr (map asset_obj (p_assets b)))]"

definition snapshot_obj :: "snapshot \<Rightarrow> js" where
  "snapshot_obj s =
     JObj [(''protocols'', JObj (map (\<lambda>kb. (fst kb, protocol_obj (snd kb))) (protocols s))),
           (''totalValue'', JNum (totalValue s))]"


section \<open>Example payloads\<close>

text \<open>
  Payloads on which the theorems below are instantiated: a provider-A list in which two
  records share a name, a provider-B wrapper with a staked position, a wallet balance and
  a deposit, a provider-A list with a nameless record, and a data directory with a
  provider-A file only.
\<close>

definition aave_record :: js where
  "aave_record =
     JObj [(''name'', JStr ''Aave V3''), (''id'', JStr ''aave3''), (''portfolio_item_list'',
       JArr [JObj [(''stats'', JObj [(''net_usd_value'', JNum (Fin 100))]), (''detail'',
       JObj [(''supply_token_list'', JArr [JObj [(''symbol'', JStr '' USDC ''), (''amount'',
       JNum (Fin 100)), (''price'', JNum (Fin 1))]])])], JObj [(''stats'',
       JObj [(''net_usd_value'', JNum (Fin (- 40)))]), (''detail'',
       JObj [(''borrow_token_list'', JArr [JObj [(''symbol'', JStr ''DAI''), (''amount'',
       JNum (Fin 40)), (''price'', JNum (Fin 1))]])])]])]"

definition lido_record :: js where
  "lido_record =
     JObj [(''name'', JStr ''Lido''), (''id'', JStr ''lido''), (''portfolio_item_list'',
       JArr [JObj [(''stats'', JObj [(''net_usd_value'', JNum (Fin 7))]), (''detail'',
       JObj [])]])]"

definition aave_record_again :: js where
  "aave_record_again =
     JObj [(''name'', JStr ''Aave V3''), (''id'', JStr ''aave3_dup''),
       (''portfolio_item_list'', JArr [JObj [(''stats'', JObj [(''net_usd_value'',
       JNum (Fin 5))])]])]"

definition two_records_payload :: js where
  "two_records_payload = JArr [aave_record, lido_record, aave_record_again]"

definition borrow_payload :: js where
  "borrow_payload =
     JArr [JObj [(''name'', JStr ''Aave V3''), (''id'', JStr ''aave3''),
       (''portfolio_item_list'', JArr [JObj [(''stats'', JObj [(''net_usd_value'',
       JNum (Fin (- 6)))]), (''detail'', JObj [(''borrow_token_list'', JArr [JObj [(''symbol'',
       JStr ''DAI''), (''amount'', JNum (Fin 2)), (''price'', JNum (Fin 3))]])])]])]]"

definition staked_position :: js where
  "staked_position =
     JObj [(''attributes'', JObj [(''protocol'', JStr ''Morpho Blue''), (''value'',
       JNum (Fin 50)), (''position_type'', JStr ''staked''), (''fungible_info'',
       JObj [(''symbol'', JStr '' USDC '')]), (''quantity'', JObj [(''float'',
       JNum (Fin 50))]), (''price'', JNum (Fin 1))])]"

definition wallet_position :: js where
  "wallet_position =
     JObj [(''attributes'', JObj [(''protocol'', JNull), (''value'', JNum (Fin 9))])]"

definition deposit_position :: js where
  "deposit_position =
     JObj [(''attributes'', JObj [(''protocol'', JStr ''Morpho''), (''value'', JNum (Fin 25)),
       (''position_type'', JStr ''deposit'')])]"

definition morpho_payload :: js where
  "morpho_payload = JObj [(''data'', JArr [staked_position, wallet_position, deposit_position])]"

definition first_record :: js where
  "first_record =
     JObj [(''id'', JStr ''a''), (''portfolio_item_list'', JArr [])]"

definition nameless_record :: js where
  "nameless_record =
     JObj [(''name'', JNull), (''id'', JStr ''b''), (''portfolio_item_list'',
       JArr [JObj [(''stats'', JObj [(''net_usd_value'', JNum (Fin 5))])]])]"

definition nameless_payload :: js where
  "nameless_payload = JArr [first_record, nameless_record]"

definition example_address :: string where
  "example_address = ''0x15b325660a1C4a9582a7d834C31119C0CB9e3A42''"

definition example_files :: files where
  "example_files =
     \<lparr>debank_dirs = [example_address],
      debank_file = (\<lambda>a c. if a = example_address \<and> c = ''eth''
                             then Some (Json
                                (JArr [JObj [(''name'', JStr ''Aave V3''), (''id'',
                                  JStr ''aave3''), (''portfolio_item_list'',
                                  JArr [JObj [(''stats'', JObj [(''net_usd_value'',
                                  JNum (Fin 100))]), (''detail'', JObj [(''supply_token_list'',
                                  JArr [JObj [(''symbol'', JStr '' USDC ''), (''amount'',
                                  JNum (Fin 100)), (''price'', JNum (Fin 1))]])])]])]]))
                             else None),
      zerion_file = (\<lambda>a c. None)\<rparr>"

text \<open>
  The doubles that the literals \<^verbatim>\<open>0.1\<close>, \<^verbatim>\<open>0.2\<close> and \<^verbatim>\<open>0.3\<close> denote, and the
  doubles that JavaScript prints as \<^verbatim>\<open>0.30000000000000004\<close>, \<^verbatim>\<open>0.5\<close>, \<^verbatim>\<open>0.6\<close>
  and \<^verbatim>\<open>0.6000000000000001\<close>.
\<close>

definition dbl_0_1 :: rat where
  "dbl_0_1 = 3602879701896397 / 36028797018963968"

definition dbl_0_2 :: rat where
  "dbl_0_2 = 3602879701896397 / 18014398509481984"

definition dbl_0_3 :: rat where
  "dbl_0_3 = 5404319552844595 / 18014398509481984"

definition dbl_0_30000000000000004 :: rat where
  "dbl_0_30000000000000004 = 1351079888211149 / 4503599627370496"

definition dbl_0_5 :: rat where
  "dbl_0_5 = 1 / 2"

definition dbl_0_6 :: rat where
  "dbl_0_6 = 5404319552844595 / 9007199254740992"

definition dbl_0_6000000000000001 :: rat where
  "dbl_0_6000000000000001 = 1351079888211149 / 2251799813685248"

text \<open>
  A provider-A list and a provider-B list with the same three values: \<^verbatim>\<open>0.1\<close> under
  one name, \<^verbatim>\<open>0.2\<close> and \<^verbatim>\<open>0.3\<close> under another. And a provider-A record whose name
  is a property name of \<^verbatim>\<open>Object.prototype\<close>.
\<close>

definition tenths_payload :: js where
  "tenths_payload =
     JArr [JObj [(''name'', JStr ''Aave V3''), (''id'', JStr ''aave3''),
             (''portfolio_item_list'',
                JArr [JObj [(''stats'', JObj [(''net_usd_value'', JNum (Fin dbl_0_1))])]])],
           JObj [(''name'', JStr ''Lido''), (''id'', JStr ''lido''),
             (''portfolio_item_list'',
                JArr [JObj [(''stats'', JObj [(''net_usd_value'', JNum (Fin dbl_0_2))])],
                      JObj [(''stats'', JObj [(''net_usd_value'', JNum (Fin dbl_0_3))])]])]]"

definition tenths_positions :: js where
  "tenths_positions =
     JArr [JObj [(''attributes'', JObj [(''protocol'', JStr ''Aave V3''),
                                        (''value'', JNum (Fin dbl_0_1))])],
           JObj [(''attributes'', JObj [(''protocol'', JStr ''Lido''),
                                        (''value'', JNum (Fin dbl_0_2))])],
           JObj [(''attributes'', JObj [(''protocol'', JStr ''Lido''),
                                        (''value'', JNum (Fin dbl_0_3))])]]"

definition toString_payload :: js where
  "toString_payload =
     JArr [JObj [(''name'', JStr ''toString''), (''id'', JStr ''x''),
             (''portfolio_item_list'',
                JArr [JObj [(''stats'', JObj [(''net_usd_value'', JNum (Fin 5))])]])]]"

lemmas example_defs = aave_record_def lido_record_def aave_record_again_def
  two_records_payload_def borrow_payload_def staked_position_def wallet_position_def
  deposit_position_def morpho_payload_def first_record_def nameless_record_def
  nameless_payload_def example_address_def example_files_def tenths_payload_def
  tenths_positions_def toString_payload_def

section \<open>Basic facts\<close>

subsection \<open>Rounding\<close>

lemma two_pow_pos [simp]: "0 < two_pow e"
  by (simp add: two_pow_def)

lemma two_pow_nonzero [simp]: "two_pow e \<noteq> 0"
  by (simp add: two_pow_def)

lemma two_pow_add: "two_pow (a + b) = two_pow a * two_pow b"
  by (simp add: two_pow_def power_int_add)

lemma two_pow_diff: "two_pow (a - b) = two_pow a / two_pow b"
  by (simp add: two_pow_def power_int_diff)

lemma two_pow_mono: "a \<le> b \<Longrightarrow> two_pow a \<le> two_pow b"
  unfolding two_pow_def by (rule power_int_increasing) simp_all

lemma two_pow_less_cancel:
  assumes "two_pow a < two_pow b"
  shows "a < b"
proof (rule ccontr)
  assume "\<not> a < b"
  then have "b \<le> a" by simp
  from two_pow_mono [OF this] assms show False by simp
qed

lemma two_pow_int: "0 \<le> d \<Longrightarrow> two_pow d = of_int (2 ^ nat d)"
  by (simp add: two_pow_def power_int_def)

lemma two_pow_0 [simp]: "two_pow 0 = 1"
  by (simp add: two_pow_def)

lemma two_pow_Suc: "two_pow (e + 1) = 2 * two_pow e"
  using two_pow_add [of e 1] by (simp add: two_pow_def)

lemma ilog2_ge1:
  fixes x :: rat
  assumes "1 \<le> x"
  shows "two_pow (bitlen \<lfloor>x\<rfloor> - 1) \<le> x \<and> x < two_pow (bitlen \<lfloor>x\<rfloor>)"
proof -
  let ?n = "\<lfloor>x\<rfloor>"
  have n: "0 < ?n" using assms by simp
  from bitlen_bounds [OF n] have b: "2 ^ nat (bitlen ?n - 1) \<le> ?n" "?n < 2 ^ nat (bitlen ?n)"
    by auto
  have b1: "1 \<le> bitlen ?n" using n by (auto simp: bitlen_alt_def)
  have "two_pow (bitlen ?n - 1) = of_int (2 ^ nat (bitlen ?n - 1))"
    using b1 by (simp add: two_pow_int)
  moreover have "(of_int (2 ^ nat (bitlen ?n - 1)) :: rat) \<le> of_int ?n"
    using b(1) by (simp only: of_int_le_iff)
  moreover have "of_int ?n \<le> x" by simp
  ultimately have lo: "two_pow (bitlen ?n - 1) \<le> x" by linarith
  have "two_pow (bitlen ?n) = of_int (2 ^ nat (bitlen ?n))"
    using b1 by (simp add: two_pow_int)
  moreover have "?n + 1 \<le> 2 ^ nat (bitlen ?n)" using b(2) by simp
  then have "(of_int (?n + 1) :: rat) \<le> of_int (2 ^ nat (bitlen ?n))"
    by (simp only: of_int_le_iff)
  moreover have "x < of_int (?n + 1)" by linarith
  ultimately have "x < two_pow (bitlen ?n)" by linarith
  with lo show ?thesis by simp
qed

lemma ilog2_bounds:
  fixes x :: rat
  assumes "0 < x"
  shows "two_pow (ilog2 x) \<le> x \<and> x < two_pow (ilog2 x + 1)"
proof (cases "1 \<le> x")
  case True
  with ilog2_ge1 [OF True] show ?thesis by (simp add: ilog2_def)
next
  case False
  let ?y = "1 / x"
  let ?k = "bitlen \<lfloor>?y\<rfloor> - 1"
  have y1: "1 \<le> ?y" using assms False by simp
  from ilog2_ge1 [OF y1] have lo: "two_pow ?k \<le> ?y" and hi: "?y < two_pow (?k + 1)" by simp_all
  have inv: "two_pow (- ?k) * two_pow ?k = 1"
    using two_pow_add [of "- ?k" ?k] by simp
  have pk: "0 < two_pow ?k" by simp
  have xle: "x \<le> two_pow (- ?k)"
  proof -
    from lo assms have "x * two_pow ?k \<le> 1" by (simp add: field_simps)
    then have "x * two_pow ?k \<le> two_pow (- ?k) * two_pow ?k" using inv by simp
    then show ?thesis using pk by (simp only: mult_le_cancel_right_pos)
  qed
  have xgt: "two_pow (- ?k - 1) < x"
  proof -
    have i2: "two_pow (- ?k - 1) * two_pow (?k + 1) = 1"
      using two_pow_add [of "- ?k - 1" "?k + 1"] by simp
    from hi assms have "1 < x * two_pow (?k + 1)" by (simp add: field_simps)
    then have "two_pow (- ?k - 1) * two_pow (?k + 1) < x * two_pow (?k + 1)" using i2 by simp
    then show ?thesis using two_pow_pos [of "?k + 1"] by (simp only: mult_less_cancel_right_pos)
  qed
  show ?thesis
  proof (cases "x * two_pow ?k = 1")
    case True
    then have e: "ilog2 x = - ?k" using False by (simp add: ilog2_def Let_def)
    from True inv have "x * two_pow ?k = two_pow (- ?k) * two_pow ?k" by simp
    then have "x = two_pow (- ?k)" using pk by simp
    moreover have "two_pow (- ?k) < two_pow (- ?k + 1)"
      using two_pow_Suc [of "- ?k"] two_pow_pos [of "- ?k"] by linarith
    ultimately show ?thesis unfolding e by simp
  next
    case F2: False
    then have e: "ilog2 x = - ?k - 1" using False by (simp add: ilog2_def Let_def)
    have "x \<noteq> two_pow (- ?k)" using F2 inv by auto
    with xle have "x < two_pow (- ?k)" by simp
    with xgt show ?thesis unfolding e by simp
  qed
qed

lemma ilog2_unique:
  fixes x :: rat
  assumes "two_pow e \<le> x" "x < two_pow (e + 1)"
  shows "ilog2 x = e"
proof -
  have x: "0 < x" using assms(1) two_pow_pos [of e] by linarith
  from ilog2_bounds [OF x] have b: "two_pow (ilog2 x) \<le> x" "x < two_pow (ilog2 x + 1)" by simp_all
  have "two_pow e < two_pow (ilog2 x + 1)" using assms(1) b(2) by linarith
  then have 1: "e < ilog2 x + 1" by (rule two_pow_less_cancel)
  have "two_pow (ilog2 x) < two_pow (e + 1)" using assms(2) b(1) by linarith
  then have 2: "ilog2 x < e + 1" by (rule two_pow_less_cancel)
  from 1 2 show ?thesis by simp
qed

lemma ilog2_0 [simp]: "ilog2 0 = 0"
  by (simp add: ilog2_def)

lemma below_overflow:
  assumes "0 \<le> y"
  shows "ilog2 y < 1024 \<longleftrightarrow> y < two_pow 1024"
proof (cases "y = 0")
  case True
  then show ?thesis by simp
next
  case False
  with assms have "0 < y" by simp
  from ilog2_bounds [OF this] have b: "two_pow (ilog2 y) \<le> y" "y < two_pow (ilog2 y + 1)"
    by simp_all
  show ?thesis
  proof
    assume "ilog2 y < 1024"
    then have "ilog2 y + 1 \<le> 1024" by simp
    from two_pow_mono [OF this] b(2) show "y < two_pow 1024" by simp
  next
    assume "y < two_pow 1024"
    with b(1) have "two_pow (ilog2 y) < two_pow 1024" by simp
    then show "ilog2 y < 1024" by (rule two_pow_less_cancel)
  qed
qed


lemma rne_of_int [simp]: "rne (of_int n) = n"
  by (simp add: rne_def)



lemma representableI:
  "y = of_int m * two_pow e \<Longrightarrow> \<bar>m\<bar> < 2 ^ 53 \<Longrightarrow> - 1074 \<le> e \<Longrightarrow> e \<le> 971
     \<Longrightarrow> representable y"
  unfolding representable_def by blast

lemma round64_representable:
  assumes "representable y"
  shows "round64 y = Fin y"
proof (cases "y = 0")
  case True
  then show ?thesis by (simp add: round64_def)
next
  case False
  from assms obtain m e where y: "y = of_int m * two_pow e" and m: "\<bar>m\<bar> < 2 ^ 53"
    and e: "- 1074 \<le> e" "e \<le> 971" by (auto simp: representable_def)
  let ?a = "\<bar>y\<bar>"
  let ?M = "\<bar>m\<bar>"
  have a: "?a = of_int ?M * two_pow e" unfolding y by (simp add: abs_mult abs_of_pos)
  have apos: "0 < ?a" using False by simp
  have "(of_int ?M :: rat) < of_int (2 ^ 53)" using m by (simp only: of_int_less_iff)
  then have Mlt: "(of_int ?M :: rat) < two_pow 53" by (simp add: two_pow_int)
  have alt: "?a < two_pow (e + 53)"
    unfolding a two_pow_add [of e 53] using Mlt
    by (simp add: mult.commute mult_strict_left_mono)
  let ?k = "ilog2 ?a"
  from ilog2_bounds [OF apos] have kb: "two_pow ?k \<le> ?a" "?a < two_pow (?k + 1)" by simp_all
  have "two_pow ?k < two_pow (e + 53)" using kb(1) alt by linarith
  then have klt: "?k < e + 53" by (rule two_pow_less_cancel)
  let ?c = "max ?k (- 1022)"
  let ?q = "two_pow (?c - 52)"
  have d0: "0 \<le> e - (?c - 52)" using klt e by simp
  have "?a / ?q = of_int ?M * (two_pow e / ?q)" unfolding a by simp
  also have "two_pow e / ?q = two_pow (e - (?c - 52))" by (simp only: two_pow_diff)
  also have "\<dots> = of_int (2 ^ nat (e - (?c - 52)))" by (rule two_pow_int [OF d0])
  finally have "?a / ?q = of_int (?M * 2 ^ nat (e - (?c - 52)))" by simp
  then have "of_int (rne (?a / ?q)) = ?a / ?q" by (simp only: rne_of_int)
  then have yy: "of_int (rne (?a / ?q)) * ?q = ?a" by simp
  have "two_pow (e + 53) \<le> two_pow 1024" using e by (intro two_pow_mono) simp
  with alt have "?a < two_pow 1024" by simp
  then have "\<not> 1024 \<le> ilog2 ?a" using below_overflow [of ?a] by simp
  moreover have "sgn y * ?a = y" by (simp add: sgn_mult_abs)
  ultimately show ?thesis using False unfolding round64_def Let_def yy by simp
qed



lemma representable_int:
  assumes "\<bar>n\<bar> \<le> 2 ^ 53"
  shows "representable (of_int n)"
proof (cases "\<bar>n\<bar> < 2 ^ 53")
  case True
  then show ?thesis
    by (intro representableI [of _ n 0]) simp_all
next
  case False
  with assms have "n = 2 ^ 53 \<or> n = - (2 ^ 53)" by auto
  then show ?thesis
    by (intro representableI [of _ "n div 2" 1]) (auto simp: two_pow_def)
qed

lemma round64_int:
  assumes "r \<in> \<int>" "\<bar>r\<bar> \<le> 9007199254740992"
  shows "round64 r = Fin r"
proof -
  from assms(1) obtain n where r: "r = of_int n" by (auto elim: Ints_cases)
  with assms(2) have "\<bar>of_int n :: rat\<bar> \<le> of_int 9007199254740992" by simp
  then have "\<bar>n\<bar> \<le> 9007199254740992" by (simp only: of_int_abs [symmetric] of_int_le_iff)
  then have "\<bar>n\<bar> \<le> 2 ^ 53" by simp
  from round64_representable [OF representable_int [OF this]] r show ?thesis by simp
qed



lemma round64_0 [simp]: "round64 0 = Fin 0"
  by (simp add: round64_def)






lemma running_sum_Nil [simp]: "running_sum [] = Fin 0"
  by (simp add: running_sum_def)

lemma running_sum_snoc [simp]: "running_sum (vs @ [v]) = num_add (running_sum vs) v"
  by (simp add: running_sum_def)








subsection \<open>Results and lookups\<close>

lemma and_then_simps [simp]:
  "and_then (Inl e) f = Inl e" "and_then (Inr x) f = f x"
  by (simp_all add: and_then_def)

lemma and_then_Inr: "and_then m f = Inr y \<longleftrightarrow> (\<exists>x. m = Inr x \<and> f x = Inr y)"
  by (cases m) simp_all


lemma lookup_Own: "lookup obj k = Own v \<longleftrightarrow> map_of obj k = Some v"
  by (simp add: lookup_def split: option.splits)

lemma lookup_Own_mem: "lookup obj k = Own v \<Longrightarrow> k \<in> fst ` set obj"
  by (metis lookup_Own map_of_eq_None_iff option.distinct(1))

lemma map_of_Some_mem: "map_of obj k = Some v \<Longrightarrow> k \<in> fst ` set obj"
  by (metis map_of_eq_None_iff option.distinct(1))

lemma lookup_Inherited:
  "lookup obj k = Inherited \<longleftrightarrow> k \<notin> fst ` set obj \<and> k \<in> set Object_prototype_keys"
proof (cases "map_of obj k")
  case None
  then have "k \<notin> fst ` set obj" by (simp add: map_of_eq_None_iff)
  with None show ?thesis by (simp add: lookup_def)
next
  case (Some v)
  with map_of_Some_mem [OF Some] show ?thesis by (simp add: lookup_def)
qed

lemma lookup_Absent:
  "lookup obj k = Absent \<longleftrightarrow> k \<notin> fst ` set obj \<and> k \<notin> set Object_prototype_keys"
proof (cases "map_of obj k")
  case None
  then have "k \<notin> fst ` set obj" by (simp add: map_of_eq_None_iff)
  with None show ?thesis by (simp add: lookup_def)
next
  case (Some v)
  with map_of_Some_mem [OF Some] show ?thesis by (simp add: lookup_def)
qed

lemma truthy_get: "truthy x \<Longrightarrow> get x f = Inr (opt_get x f)"
  by (cases x) (simp_all add: opt_get_def)

lemma get_opt_get: "get x f = Inr v \<Longrightarrow> opt_get x f = v"
  by (simp add: opt_get_def)

lemma foldM_snoc:
  "foldM f (xs @ [x]) s = and_then (foldM f xs s) (\<lambda>s'. f s' x)"
  by (induction xs arbitrary: s) (auto simp: and_then_def split: sum.splits)

lemma foldM_append:
  "foldM f (xs @ ys) s = and_then (foldM f xs s) (foldM f ys)"
  by (induction xs arbitrary: s) (auto split: sum.splits)

lemma foldM_skip:
  assumes "\<And>s. f s x = Inr s"
  shows "foldM f (xs @ x # ys) s = foldM f (xs @ ys) s"
proof -
  have "foldM f (x # ys) = foldM f ys" by (rule ext) (simp add: assms)
  then show ?thesis by (simp add: foldM_append)
qed

lemma successes_simps [simp]:
  "successes [] = []"
  "successes (Inr a # rs) = a # successes rs"
  "successes (Inl e # rs) = successes rs"
  by (simp_all add: successes_def)


subsection \<open>Entries and buckets\<close>

lemma named_append [simp]: "named k (es @ es') = named k es @ named k es'"
  by (simp add: named_def)

lemma named_single [simp]: "named k [e] = (if e_name e = k then [e] else [])"
  by (simp add: named_def)

lemma named_Nil [simp]: "named k [] = []"
  by (simp add: named_def)

lemma named_empty: "k \<notin> e_name ` set es \<Longrightarrow> named k es = []"
  by (auto simp: named_def filter_empty_conv)

lemma named_nonempty: "k \<in> e_name ` set es \<Longrightarrow> named k es \<noteq> []"
  by (auto simp: named_def filter_empty_conv)

lemma grouped_empty: "grouped [] empty_snapshot"
  by (simp add: grouped_def empty_snapshot_def)

lemma ensure_bucket_Inr:
  assumes "ensure_bucket k ident st = Inr st'"
  shows "((k \<in> fst ` set (protocols st) \<or> k \<in> set Object_prototype_keys) \<and> st' = st) \<or>
         (k \<notin> fst ` set (protocols st) \<and> k \<notin> set Object_prototype_keys \<and>
          st' = st\<lparr>protocols := protocols st @
                  [(k, \<lparr>p_name = k, p_id = ident, p_value = Fin 0, p_assets = []\<rparr>)]\<rparr>)"
proof (cases "lookup (protocols st) k")
  case (Own b)
  with assms lookup_Own_mem [OF Own] show ?thesis by (simp add: ensure_bucket_def)
next
  case Inherited
  with assms show ?thesis by (simp add: ensure_bucket_def lookup_Inherited)
next
  case Absent
  with assms show ?thesis by (auto simp: ensure_bucket_def lookup_Absent)
qed

lemma ensure_bucket_total: "\<exists>st1. ensure_bucket k ident st = Inr st1"
  by (cases "lookup (protocols st) k") (simp_all add: ensure_bucket_def)

lemma bucket_of_snoc_other:
  "e_name e \<noteq> k' \<Longrightarrow> bucket_of k' (es @ [e]) = bucket_of k' es"
  by (simp add: bucket_of_def)

lemma bucket_of_snoc_new:
  "named k es = [] \<Longrightarrow>
   bucket_of k (es @ [\<lparr>e_name = k, e_id = i, e_values = ns, e_assets = as\<rparr>]) =
     \<lparr>p_name = k, p_id = i, p_value = running_sum ns, p_assets = as\<rparr>"
  by (simp add: bucket_of_def)

lemma bucket_of_snoc_nothing:
  "named k es \<noteq> [] \<Longrightarrow>
   bucket_of k (es @ [\<lparr>e_name = k, e_id = i, e_values = [], e_assets = []\<rparr>]) = bucket_of k es"
  by (simp add: bucket_of_def)

lemma bucket_of_last_value:
  "bucket_of k (es @ [\<lparr>e_name = k, e_id = i, e_values = ns @ [n], e_assets = as\<rparr>]) =
     (bucket_of k (es @ [\<lparr>e_name = k, e_id = i, e_values = ns, e_assets = as\<rparr>]))
        \<lparr>p_value := num_add (p_value (bucket_of k (es @ [\<lparr>e_name = k, e_id = i, e_values = ns, e_assets = as\<rparr>]))) n\<rparr>"
  by (cases "named k es = []") (simp_all add: bucket_of_def running_sum_def)

lemma bucket_of_last_asset:
  "bucket_of k (es @ [\<lparr>e_name = k, e_id = i, e_values = ns, e_assets = as @ [a]\<rparr>]) =
     (bucket_of k (es @ [\<lparr>e_name = k, e_id = i, e_values = ns, e_assets = as\<rparr>]))
        \<lparr>p_assets := p_assets (bucket_of k (es @ [\<lparr>e_name = k, e_id = i, e_values = ns, e_assets = as\<rparr>])) @ [a]\<rparr>"
  by (cases "named k es = []") (simp_all add: bucket_of_def)

lemma in_bucket_keys [simp]: "map fst (protocols (in_bucket k f st)) = map fst (protocols st)"
  by (simp add: in_bucket_def comp_def case_prod_beta)

lemma in_bucket_keys_set [simp]:
  "fst ` set (protocols (in_bucket k f st)) = fst ` set (protocols st)"
  using in_bucket_keys [of k f st] by (metis set_map)

lemma upd_mem:
  "(k', b') \<in> set (map (\<lambda>(ka, b). if ka = k then (ka, f b) else (ka, b)) ps) \<longleftrightarrow>
     (\<exists>b. (k', b) \<in> set ps \<and> b' = (if k' = k then f b else b))"
  by (induction ps) (auto split: if_splits)

lemma in_bucket_mem:
  "(k', b') \<in> set (protocols (in_bucket k f st)) \<longleftrightarrow>
     (\<exists>b. (k', b) \<in> set (protocols st) \<and> b' = (if k' = k then f b else b))"
  by (simp add: in_bucket_def upd_mem del: set_map)

lemma in_bucket_total [simp]: "totalValue (in_bucket k f st) = totalValue st"
  by (simp add: in_bucket_def)

lemma grouped_ensure:
  assumes "grouped es st" and "ensure_bucket k ident st = Inr st'"
  shows "grouped (es @ [\<lparr>e_name = k, e_id = ident, e_values = [], e_assets = []\<rparr>]) st'"
  using ensure_bucket_Inr [OF assms(2)]
proof (elim disjE conjE)
  let ?e = "\<lparr>e_name = k, e_id = ident, e_values = [], e_assets = []\<rparr>"
  assume k: "k \<in> fst ` set (protocols st)" and eq: "st' = st"
  with assms(1) have kin: "k \<in> e_name ` set es" and plain: "k \<notin> set Object_prototype_keys"
    by (auto simp: grouped_def)
  then have ne: "named k es \<noteq> []" by (simp add: named_nonempty)
  have "bucket_of k' (es @ [?e]) = bucket_of k' es" for k'
    using ne by (cases "k' = k") (simp_all add: bucket_of_snoc_other bucket_of_snoc_nothing)
  then show ?thesis using assms(1) kin unfolding eq grouped_def by auto
next
  let ?e = "\<lparr>e_name = k, e_id = ident, e_values = [], e_assets = []\<rparr>"
  assume inh: "k \<in> set Object_prototype_keys" and eq: "st' = st"
  have "bucket_of k' (es @ [?e]) = bucket_of k' es" if "(k', b) \<in> set (protocols st)" for k' b
  proof -
    from that have "k' \<in> fst ` set (protocols st)" by force
    with assms(1) inh have "k' \<noteq> k" by (auto simp: grouped_def)
    then show ?thesis by (simp add: bucket_of_snoc_other)
  qed
  then show ?thesis using assms(1) inh unfolding eq grouped_def by auto
next
  let ?e = "\<lparr>e_name = k, e_id = ident, e_values = [], e_assets = []\<rparr>"
  assume notin: "k \<notin> fst ` set (protocols st)" and plain: "k \<notin> set Object_prototype_keys"
    and eq: "st' = st\<lparr>protocols := protocols st @
                  [(k, \<lparr>p_name = k, p_id = ident, p_value = Fin 0, p_assets = []\<rparr>)]\<rparr>"
  have ne: "named k es = []" using assms(1) notin plain by (auto simp: grouped_def intro: named_empty)
  have other: "bucket_of k' (es @ [?e]) = bucket_of k' es" if "(k', b) \<in> set (protocols st)" for k' b
  proof -
    from that notin have "k' \<noteq> k" by force
    then show ?thesis by (simp add: bucket_of_snoc_other)
  qed
  have new: "bucket_of k (es @ [?e]) = \<lparr>p_name = k, p_id = ident, p_value = Fin 0, p_assets = []\<rparr>"
    using ne by (simp add: bucket_of_snoc_new)
  show ?thesis using assms(1) notin plain other new unfolding eq grouped_def
    by auto
qed

lemma grouped_add_value:
  assumes "grouped (es @ [\<lparr>e_name = k, e_id = i, e_values = ns, e_assets = as\<rparr>]) st"
    and "add_value k v st = Inr st'"
  shows "\<exists>n. ToNumber v = Inr n \<and>
             grouped (es @ [\<lparr>e_name = k, e_id = i, e_values = ns @ [n], e_assets = as\<rparr>]) st'"
proof (cases "lookup (protocols st) k")
  case Absent
  with assms(2) show ?thesis by (simp add: add_value_def)
next
  case (Own b0)
  let ?e = "\<lparr>e_name = k, e_id = i, e_values = ns, e_assets = as\<rparr>"
  from assms(2) Own obtain n where n: "ToNumber v = Inr n"
    and eq: "st' = (in_bucket k (\<lambda>b. b\<lparr>p_value := num_add (p_value b) n\<rparr>) st)
              \<lparr>totalValue := num_add (totalValue st) n\<rparr>"
    by (auto simp: add_value_def and_then_Inr)
  have b: "bucket_of k' (es @ [\<lparr>e_name = k, e_id = i, e_values = ns @ [n], e_assets = as\<rparr>]) =
      (if k' = k then (bucket_of k' (es @ [?e]))\<lparr>p_value := num_add (p_value (bucket_of k' (es @ [?e]))) n\<rparr>
       else bucket_of k' (es @ [?e]))" for k'
    using bucket_of_last_value [of k es i ns n as]
    by (simp add: bucket_of_snoc_other)
  have t: "running_sum (concat (map e_values es) @ ns @ [n]) =
           num_add (running_sum (concat (map e_values es) @ ns)) n"
    by (simp add: running_sum_def)
  have "grouped (es @ [\<lparr>e_name = k, e_id = i, e_values = ns @ [n], e_assets = as\<rparr>]) st'"
    using assms(1) unfolding eq grouped_def
    by (auto simp: in_bucket_mem b t)
  with n show ?thesis by blast
next
  case Inherited
  let ?e = "\<lparr>e_name = k, e_id = i, e_values = ns, e_assets = as\<rparr>"
  from Inherited have inh: "k \<in> set Object_prototype_keys" by (simp add: lookup_Inherited)
  from assms(2) Inherited obtain n where n: "ToNumber v = Inr n"
    and eq: "st' = st\<lparr>totalValue := num_add (totalValue st) n\<rparr>"
    by (auto simp: add_value_def and_then_Inr)
  have b: "bucket_of k' (es @ [\<lparr>e_name = k, e_id = i, e_values = ns @ [n], e_assets = as\<rparr>]) =
      bucket_of k' (es @ [?e])" if "(k', b) \<in> set (protocols st)" for k' b
  proof -
    from that have "k' \<in> fst ` set (protocols st)" by force
    with assms(1) inh have "k' \<noteq> k" by (auto simp: grouped_def)
    then show ?thesis by (simp add: bucket_of_snoc_other)
  qed
  have t: "running_sum (concat (map e_values es) @ ns @ [n]) =
           num_add (running_sum (concat (map e_values es) @ ns)) n"
    by (simp add: running_sum_def)
  have "grouped (es @ [\<lparr>e_name = k, e_id = i, e_values = ns @ [n], e_assets = as\<rparr>]) st'"
    using assms(1) unfolding eq grouped_def
    by (auto simp: b t)
  with n show ?thesis by blast
qed

lemma grouped_push:
  assumes "grouped (es @ [\<lparr>e_name = k, e_id = i, e_values = ns, e_assets = as\<rparr>]) st"
    and "push_asset k literal st = Inr st'"
  shows "\<exists>a. literal = Inr a \<and>
             grouped (es @ [\<lparr>e_name = k, e_id = i, e_values = ns, e_assets = as @ [a]\<rparr>]) st'"
proof (cases "lookup (protocols st) k")
  case (Own b0)
  let ?e = "\<lparr>e_name = k, e_id = i, e_values = ns, e_assets = as\<rparr>"
  from assms(2) Own obtain a where a: "literal = Inr a"
    and eq: "st' = in_bucket k (\<lambda>b. b\<lparr>p_assets := p_assets b @ [a]\<rparr>) st"
    by (auto simp: push_asset_def and_then_Inr)
  from lookup_Own_mem [OF Own] assms(1) have plain: "k \<notin> set Object_prototype_keys"
    by (auto simp: grouped_def)
  have b: "bucket_of k' (es @ [\<lparr>e_name = k, e_id = i, e_values = ns, e_assets = as @ [a]\<rparr>]) =
      (if k' = k then (bucket_of k' (es @ [?e]))\<lparr>p_assets := p_assets (bucket_of k' (es @ [?e])) @ [a]\<rparr>
       else bucket_of k' (es @ [?e]))" for k'
    using bucket_of_last_asset [of k es i ns as a]
    by (simp add: bucket_of_snoc_other)
  have "grouped (es @ [\<lparr>e_name = k, e_id = i, e_values = ns, e_assets = as @ [a]\<rparr>]) st'"
    using assms(1) plain unfolding eq grouped_def
    by (auto simp: in_bucket_mem b)
  with a show ?thesis by blast
qed (use assms(2) in \<open>simp_all add: push_asset_def\<close>)

subsection \<open>Provider A keeps the grouping\<close>

lemma grouped_tokens:
  assumes "foldM (\<lambda>st' token. push_asset k (token_asset typ neg token) st') tokens st = Inr st'"
    and "grouped (es @ [\<lparr>e_name = k, e_id = i, e_values = ns, e_assets = as\<rparr>]) st"
  shows "grouped (es @ [\<lparr>e_name = k, e_id = i, e_values = ns,
                         e_assets = as @ successes (map (token_asset typ neg) tokens)\<rparr>]) st'"
  using assms
proof (induction tokens arbitrary: st as)
  case Nil
  then show ?case by simp
next
  case (Cons t ts)
  from Cons.prems(1) obtain st1 where p: "push_asset k (token_asset typ neg t) st = Inr st1"
    and rest: "foldM (\<lambda>st' token. push_asset k (token_asset typ neg token) st') ts st1 = Inr st'"
    by (cases "push_asset k (token_asset typ neg t) st") simp_all
  from grouped_push [OF Cons.prems(2) p] obtain a where a: "token_asset typ neg t = Inr a"
    and g: "grouped (es @ [\<lparr>e_name = k, e_id = i, e_values = ns, e_assets = as @ [a]\<rparr>]) st1"
    by blast
  from Cons.IH [OF rest g] a show ?case by simp
qed

lemma grouped_token_list:
  assumes "token_list detail field typ neg k st = Inr st'"
    and "grouped (es @ [\<lparr>e_name = k, e_id = i, e_values = ns, e_assets = as\<rparr>]) st"
  shows "grouped (es @ [\<lparr>e_name = k, e_id = i, e_values = ns,
                         e_assets = as @ list_assets detail field typ neg\<rparr>]) st'"
proof (cases "truthy detail")
  case False
  with assms show ?thesis by (simp add: token_list_def list_assets_def)
next
  case True
  with assms(1) obtain tokens where g: "get detail field = Inr tokens"
    and r: "(if \<not> truthy tokens then Inr st
             else forEach tokens (\<lambda>st' token. push_asset k (token_asset typ neg token) st') st)
            = Inr st'"
    by (auto simp: token_list_def and_then_Inr)
  show ?thesis
  proof (cases tokens)
    case (JArr ts)
    with r have "foldM (\<lambda>st' token. push_asset k (token_asset typ neg token) st') ts st = Inr st'"
      by simp
    from grouped_tokens [OF this assms(2)] True g JArr
    show ?thesis by (simp add: list_assets_def)
  qed (use r assms(2) True g in \<open>auto simp: list_assets_def split: if_splits\<close>)
qed

lemma grouped_vesting_token:
  assumes "vesting_token detail k st = Inr st'"
    and "grouped (es @ [\<lparr>e_name = k, e_id = i, e_values = ns, e_assets = as\<rparr>]) st"
  shows "grouped (es @ [\<lparr>e_name = k, e_id = i, e_values = ns,
                         e_assets = as @ vesting_assets detail\<rparr>]) st'"
proof (cases "truthy detail \<and> truthy (opt_get detail ''token'')")
  case False
  with assms show ?thesis
    by (auto simp: vesting_token_def vesting_assets_def opt_get_def and_then_Inr split: if_splits)
next
  case True
  with assms(1) have "push_asset k (token_asset ''vesting'' False (opt_get detail ''token'')) st = Inr st'"
    by (auto simp: vesting_token_def opt_get_def and_then_Inr split: if_splits)
  from grouped_push [OF assms(2) this] True
  show ?thesis by (auto simp: vesting_assets_def)
qed

lemma grouped_portfolio_item:
  assumes "portfolio_item vesting k st item = Inr st'"
    and "grouped (es @ [\<lparr>e_name = k, e_id = i, e_values = ns, e_assets = as\<rparr>]) st"
  shows "grouped (es @ [\<lparr>e_name = k, e_id = i, e_values = ns @ [net_value item],
                         e_assets = as @ item_assets vesting item\<rparr>]) st'"
proof -
  from assms(1) obtain stats nuv st1 detail st2 st3 st4 where
    stats: "get item ''stats'' = Inr stats" and
    nuv: "get stats ''net_usd_value'' = Inr nuv" and
    av: "add_value k (js_or nuv (JNum (Fin 0))) st = Inr st1" and
    detail: "get item ''detail'' = Inr detail" and
    t1: "token_list detail ''supply_token_list'' ''supply'' False k st1 = Inr st2" and
    t2: "token_list detail ''borrow_token_list'' ''borrow'' True k st2 = Inr st3" and
    t3: "token_list detail ''reward_token_list'' ''reward'' False k st3 = Inr st4" and
    t4: "(if vesting then vesting_token detail k st4 else Inr st4) = Inr st'"
    unfolding portfolio_item_def and_then_Inr by blast
  from grouped_add_value [OF assms(2) av] obtain n where
    n: "ToNumber (js_or nuv (JNum (Fin 0))) = Inr n" and
    g1: "grouped (es @ [\<lparr>e_name = k, e_id = i, e_values = ns @ [n], e_assets = as\<rparr>]) st1"
    by blast
  have nv: "net_value item = n" using stats nuv n by (simp add: net_value_def)
  note g2 = grouped_token_list [OF t1 g1]
  note g3 = grouped_token_list [OF t2 g2]
  note g4 = grouped_token_list [OF t3 g3]
  have od: "opt_get item ''detail'' = detail" using detail by (simp add: opt_get_def)
  show ?thesis
  proof (cases vesting)
    case True
    with t4 have "vesting_token detail k st4 = Inr st'" by simp
    from grouped_vesting_token [OF this g4] True nv od
    show ?thesis by (simp add: item_assets_def)
  next
    case False
    with t4 have "st' = st4" by simp
    with g4 False nv od show ?thesis by (simp add: item_assets_def)
  qed
qed

lemma grouped_items:
  assumes "foldM (portfolio_item vesting k) items st = Inr st'"
    and "grouped (es @ [\<lparr>e_name = k, e_id = i, e_values = ns, e_assets = as\<rparr>]) st"
  shows "grouped (es @ [\<lparr>e_name = k, e_id = i,
                         e_values = ns @ map net_value items,
                         e_assets = as @ concat (map (item_assets vesting) items)\<rparr>]) st'"
  using assms
proof (induction items arbitrary: st ns as)
  case Nil
  then show ?case by simp
next
  case (Cons x xs)
  from Cons.prems(1) obtain st1 where x: "portfolio_item vesting k st x = Inr st1"
    and rest: "foldM (portfolio_item vesting k) xs st1 = Inr st'"
    by (cases "portfolio_item vesting k st x") simp_all
  from Cons.IH [OF rest grouped_portfolio_item [OF x Cons.prems(2)]]
  show ?case by simp
qed

lemma grouped_protocol_record:
  assumes "protocol_record vesting st proto = Inr st'" and "grouped es st"
  shows "grouped (es @ [record_entry vesting proto]) st'"
proof -
  from assms(1) obtain nm k st1 items where
    nm: "get proto ''name'' = Inr nm" and
    k: "as_string (js_or nm (JStr ''Unknown'')) = Inr k" and
    eb: "ensure_bucket k (opt_get proto ''id'') st = Inr st1" and
    items: "get proto ''portfolio_item_list'' = Inr items" and
    fe: "forEach items (portfolio_item vesting k) st1 = Inr st'"
    unfolding protocol_record_def and_then_Inr by blast
  from fe obtain xs where xs: "items = JArr xs"
    and fm: "foldM (portfolio_item vesting k) xs st1 = Inr st'"
    by (cases items) simp_all
  have pn: "protoName_of proto = k" using nm k by (simp add: protoName_of_def)
  have io: "items_of proto = xs" using items xs by (simp add: items_of_def)
  from grouped_items [OF fm grouped_ensure [OF assms(2) eb]] pn io
  show ?thesis by (simp add: record_entry_def)
qed

lemma grouped_records:
  assumes "foldM (protocol_record vesting) protos st = Inr st'" and "grouped es st"
  shows "grouped (es @ map (record_entry vesting) protos) st'"
  using assms
proof (induction protos arbitrary: st es)
  case Nil
  then show ?case by simp
next
  case (Cons p ps)
  from Cons.prems(1) obtain st1 where p: "protocol_record vesting st p = Inr st1"
    and rest: "foldM (protocol_record vesting) ps st1 = Inr st'"
    by (cases "protocol_record vesting st p") simp_all
  from Cons.IH [OF rest grouped_protocol_record [OF p Cons.prems(2)]]
  show ?case by simp
qed

lemma grouped_normalizeDeBank:
  assumes "normalizeDeBank_with vesting chainData = Inr snap"
  shows "grouped (map (record_entry vesting) (records_of chainData)) snap"
proof (cases chainData)
  case (JArr protos)
  with assms have "foldM (protocol_record vesting) protos empty_snapshot = Inr snap"
    by (simp add: normalizeDeBank_with_def)
  from grouped_records [OF this grouped_empty] JArr
  show ?thesis by (simp add: records_of_def)
qed (use assms in \<open>auto simp: normalizeDeBank_with_def records_of_def grouped_empty\<close>)

subsection \<open>Provider B keeps the grouping\<close>

lemma position_skip:
  assumes "filtered_out pos"
  shows "position tbl c st pos = Inr st"
proof -
  from assms obtain attrs where a: "get pos ''attributes'' = Inr attrs"
    and f: "\<not> truthy attrs \<or> \<not> truthy (opt_get attrs ''protocol'')"
    by (auto simp: filtered_out_def)
  show ?thesis
  proof (cases "truthy attrs")
    case True
    with f a truthy_get [OF True, of "''protocol''"] show ?thesis
      by (simp add: position_def)
  next
    case False
    with a show ?thesis by (simp add: position_def)
  qed
qed

lemma position_entries_skip:
  assumes "filtered_out pos"
  shows "position_entries tbl c pos = []"
proof -
  from assms obtain attrs where a: "get pos ''attributes'' = Inr attrs"
    and f: "\<not> truthy attrs \<or> \<not> truthy (opt_get attrs ''protocol'')"
    by (auto simp: filtered_out_def)
  from a have "opt_get pos ''attributes'' = attrs" by (rule get_opt_get)
  with f show ?thesis by (auto simp: position_entries_def Let_def)
qed

lemma position_Inr:
  assumes "position tbl c st pos = Inr st'" and "\<not> filtered_out pos"
  shows "\<exists>attrs name0 k st1 st2.
            get pos ''attributes'' = Inr attrs \<and> truthy attrs \<and>
            truthy (opt_get attrs ''protocol'') \<and>
            as_string (opt_get attrs ''protocol'') = Inr name0 \<and>
            resolveAlias tbl c name0 = Inr (Name k) \<and>
            ensure_bucket k (JStr k) st = Inr st1 \<and>
            add_value k (js_or (opt_get attrs ''value'') (JNum (Fin 0))) st1 = Inr st2 \<and>
            push_asset k (position_asset attrs (js_or (opt_get attrs ''value'') (JNum (Fin 0)))) st2
              = Inr st'"
proof -
  from assms(1) obtain attrs where a: "get pos ''attributes'' = Inr attrs"
    by (cases "get pos ''attributes''") (simp_all add: position_def)
  with assms(2) have ta: "truthy attrs" and tp: "truthy (opt_get attrs ''protocol'')"
    by (auto simp: filtered_out_def)
  note gp = truthy_get [OF ta, of "''protocol''"]
  note gv = truthy_get [OF ta, of "''value''"]
  let ?val = "js_or (opt_get attrs ''value'') (JNum (Fin 0))"
  from assms(1) a ta gp gv tp have 1:
    "and_then (as_string (opt_get attrs ''protocol'')) (\<lambda>name0.
     and_then (resolveAlias tbl c name0) (\<lambda>resolved.
     and_then (bucket_name resolved) (\<lambda>protoName.
     and_then (ensure_bucket protoName (JStr protoName) st) (\<lambda>st1.
     and_then (add_value protoName ?val st1) (\<lambda>st2.
       push_asset protoName (position_asset attrs ?val) st2))))) = Inr st'"
    by (simp add: position_def)
  then obtain name0 where n0: "as_string (opt_get attrs ''protocol'') = Inr name0" and 2:
    "and_then (resolveAlias tbl c name0) (\<lambda>resolved.
     and_then (bucket_name resolved) (\<lambda>protoName.
     and_then (ensure_bucket protoName (JStr protoName) st) (\<lambda>st1.
     and_then (add_value protoName ?val st1) (\<lambda>st2.
       push_asset protoName (position_asset attrs ?val) st2)))) = Inr st'"
    unfolding and_then_Inr [of "as_string _"] by blast
  then obtain r where r: "resolveAlias tbl c name0 = Inr r" and 3:
    "and_then (bucket_name r) (\<lambda>protoName.
     and_then (ensure_bucket protoName (JStr protoName) st) (\<lambda>st1.
     and_then (add_value protoName ?val st1) (\<lambda>st2.
       push_asset protoName (position_asset attrs ?val) st2))) = Inr st'"
    unfolding and_then_Inr [of "resolveAlias _ _ _"] by blast
  then obtain k where bn: "bucket_name r = Inr k" and 4:
    "and_then (ensure_bucket k (JStr k) st) (\<lambda>st1.
     and_then (add_value k ?val st1) (\<lambda>st2.
       push_asset k (position_asset attrs ?val) st2)) = Inr st'"
    unfolding and_then_Inr [of "bucket_name _"] by blast
  from bn have rk: "r = Name k" by (cases r) simp_all
  from 4 obtain st1 where s1: "ensure_bucket k (JStr k) st = Inr st1" and 5:
    "and_then (add_value k ?val st1) (\<lambda>st2.
       push_asset k (position_asset attrs ?val) st2) = Inr st'"
    unfolding and_then_Inr [of "ensure_bucket _ _ _"] by blast
  then obtain st2 where s2: "add_value k ?val st1 = Inr st2" and 6:
    "push_asset k (position_asset attrs ?val) st2 = Inr st'"
    unfolding and_then_Inr [of "add_value _ _ _"] by blast
  from a ta tp n0 r rk s1 s2 6 show ?thesis by blast
qed

lemma position_entries_one:
  assumes "get pos ''attributes'' = Inr attrs" "truthy attrs"
    "truthy (opt_get attrs ''protocol'')"
    "as_string (opt_get attrs ''protocol'') = Inr name0"
    "resolveAlias tbl c name0 = Inr (Name k)"
    "ToNumber (js_or (opt_get attrs ''value'') (JNum (Fin 0))) = Inr n"
    "position_asset attrs (js_or (opt_get attrs ''value'') (JNum (Fin 0))) = Inr a"
  shows "position_entries tbl c pos = [\<lparr>e_name = k, e_id = JStr k, e_values = [n], e_assets = [a]\<rparr>]"
  using assms get_opt_get [OF assms(1)]
  by (simp add: position_entries_def Let_def)

lemma grouped_position:
  assumes "position tbl c st pos = Inr st'" and "grouped es st"
  shows "grouped (es @ position_entries tbl c pos) st'"
proof (cases "filtered_out pos")
  case True
  from position_skip [OF True, of tbl c st] assms(1) have "st' = st" by simp
  with position_entries_skip [OF True] assms(2) show ?thesis by simp
next
  case False
  let ?v = "\<lambda>attrs. js_or (opt_get attrs ''value'') (JNum (Fin 0))"
  from position_Inr [OF assms(1) False] obtain attrs name0 k st1 st2 where
    h: "get pos ''attributes'' = Inr attrs" "truthy attrs" "truthy (opt_get attrs ''protocol'')"
    "as_string (opt_get attrs ''protocol'') = Inr name0" "resolveAlias tbl c name0 = Inr (Name k)"
    and eb: "ensure_bucket k (JStr k) st = Inr st1"
    and av: "add_value k (?v attrs) st1 = Inr st2"
    and pa: "push_asset k (position_asset attrs (?v attrs)) st2 = Inr st'"
    by blast
  from grouped_add_value [OF grouped_ensure [OF assms(2) eb] av] obtain n where
    n: "ToNumber (?v attrs) = Inr n" and
    g: "grouped (es @ [\<lparr>e_name = k, e_id = JStr k, e_values = [] @ [n], e_assets = []\<rparr>]) st2"
    by blast
  from grouped_push [OF g pa] obtain a where a: "position_asset attrs (?v attrs) = Inr a"
    and g': "grouped (es @ [\<lparr>e_name = k, e_id = JStr k, e_values = [] @ [n], e_assets = [] @ [a]\<rparr>]) st'"
    by blast
  from g' position_entries_one [OF h n a] show ?thesis by simp
qed

lemma grouped_positions:
  assumes "foldM (position tbl c) items st = Inr st'" and "grouped es st"
  shows "grouped (es @ concat (map (position_entries tbl c) items)) st'"
  using assms
proof (induction items arbitrary: st es)
  case Nil
  then show ?case by simp
next
  case (Cons p ps)
  from Cons.prems(1) obtain st1 where p: "position tbl c st p = Inr st1"
    and rest: "foldM (position tbl c) ps st1 = Inr st'"
    by (cases "position tbl c st p") simp_all
  from Cons.IH [OF rest grouped_position [OF p Cons.prems(2)]]
  show ?case by simp
qed

lemma grouped_normalizeZerion:
  assumes "normalizeZerion tbl raw c = Inr snap"
  shows "grouped (concat (map (position_entries tbl c) (positions_of raw))) snap"
proof -
  from assms obtain items where i: "zerion_items raw = Inr items"
    and f: "foldM (position tbl c) items empty_snapshot = Inr snap"
    by (auto simp: normalizeZerion_def and_then_Inr)
  from grouped_positions [OF f grouped_empty] i
  show ?thesis by (simp add: positions_of_def)
qed

subsection \<open>What the grouping says about a returned snapshot\<close>






lemma named_record_entries:
  "named k (map (record_entry vesting) rs) =
     map (record_entry vesting) (filter (\<lambda>r. protoName_of r = k) rs)"
  by (induction rs) (simp_all add: named_def record_entry_def)

lemma record_entries_values:
  "concat (map e_values (map (record_entry vesting) rs)) =
     map net_value (concat (map items_of rs))"
  by (induction rs) (simp_all add: record_entry_def)

lemma record_entries_assets:
  "concat (map e_assets (map (record_entry vesting) rs)) =
     concat (map (item_assets vesting) (concat (map items_of rs)))"
  by (induction rs) (simp_all add: record_entry_def)

lemma grouped_bucket:
  assumes "grouped es st" and "(k, b) \<in> set (protocols st)"
  shows "b = bucket_of k es" and "named k es \<noteq> []" and "k \<notin> set Object_prototype_keys"
proof -
  from assms show "b = bucket_of k es" by (simp add: grouped_def)
  from assms(2) have "fst (k, b) \<in> fst ` set (protocols st)" by (rule imageI)
  with assms(1) have "k \<in> e_name ` set es" and p: "k \<notin> set Object_prototype_keys"
    by (auto simp: grouped_def)
  then show "named k es \<noteq> []" by (simp add: named_nonempty)
  from p show "k \<notin> set Object_prototype_keys" .
qed

lemma grouped_names:
  assumes "grouped es st"
  shows "fst ` set (protocols st) = e_name ` set es - set Object_prototype_keys"
  using assms by (simp only: grouped_def)

lemma grouped_has_bucket:
  assumes "grouped es st" and "e \<in> set es" and "e_assets e \<noteq> []"
  shows "\<exists>b. (e_name e, b) \<in> set (protocols st) \<and>
             set (e_assets e) \<subseteq> set (p_assets b)"
proof -
  from assms have "e_name e \<notin> set Object_prototype_keys" by (auto simp: grouped_def)
  with assms(2) have "e_name e \<in> e_name ` set es - set Object_prototype_keys" by simp
  with grouped_names [OF assms(1)] have "e_name e \<in> fst ` set (protocols st)" by simp
  then obtain b where b: "(e_name e, b) \<in> set (protocols st)" by force
  from grouped_bucket(1) [OF assms(1) b] have "p_assets b = concat (map e_assets (named (e_name e) es))"
    by (simp add: bucket_of_def)
  moreover from assms(2) have "e \<in> set (named (e_name e) es)" by (simp add: named_def)
  ultimately have "set (e_assets e) \<subseteq> set (p_assets b)" by auto
  with b show ?thesis by blast
qed

lemma debank_bucket:
  assumes "normalizeDeBank_with vesting chainData = Inr snap"
    and "(k, b) \<in> set (protocols snap)"
  shows "p_name b = k"
    and "p_id b = opt_get (hd (filter (\<lambda>r. protoName_of r = k) (records_of chainData))) ''id''"
    and "p_value b = running_sum (map net_value
           (concat (map items_of (filter (\<lambda>r. protoName_of r = k) (records_of chainData)))))"
    and "p_assets b = concat (map (item_assets vesting)
           (concat (map items_of (filter (\<lambda>r. protoName_of r = k) (records_of chainData)))))"
    and "filter (\<lambda>r. protoName_of r = k) (records_of chainData) \<noteq> []"
proof -
  let ?rs = "records_of chainData"
  let ?es = "map (record_entry vesting) ?rs"
  let ?rk = "filter (\<lambda>r. protoName_of r = k) ?rs"
  note g = grouped_normalizeDeBank [OF assms(1)]
  note b = grouped_bucket(1) [OF g assms(2)]
  have nk: "named k ?es = map (record_entry vesting) ?rk" by (rule named_record_entries)
  from grouped_bucket(2) [OF g assms(2)] show ne: "?rk \<noteq> []" unfolding nk by simp
  show "p_name b = k" unfolding b bucket_of_def by simp
  have "p_id b = e_id (hd (map (record_entry vesting) ?rk))"
    unfolding b bucket_of_def nk by simp
  also have "\<dots> = e_id (record_entry vesting (hd ?rk))" using hd_map [OF ne, of "record_entry vesting"] by simp
  also have "\<dots> = opt_get (hd ?rk) ''id''" by (simp add: record_entry_def)
  finally show "p_id b = opt_get (hd ?rk) ''id''" .
  have "p_value b = running_sum (concat (map e_values (map (record_entry vesting) ?rk)))"
    unfolding b bucket_of_def nk by simp
  then show "p_value b = running_sum (map net_value (concat (map items_of ?rk)))"
    by (simp only: record_entries_values)
  have "p_assets b = concat (map e_assets (map (record_entry vesting) ?rk))"
    unfolding b bucket_of_def nk by simp
  then show "p_assets b = concat (map (item_assets vesting) (concat (map items_of ?rk)))"
    by (simp only: record_entries_assets)
qed

lemma debank_total:
  assumes "normalizeDeBank_with vesting chainData = Inr snap"
  shows "totalValue snap = running_sum (map net_value (concat (map items_of (records_of chainData))))"
    and "distinct (map fst (protocols snap))"
proof -
  note g = grouped_normalizeDeBank [OF assms(1)]
  from g have "totalValue snap =
      running_sum (concat (map e_values (map (record_entry vesting) (records_of chainData))))"
    by (simp only: grouped_def)
  then show "totalValue snap = running_sum (map net_value (concat (map items_of (records_of chainData))))"
    by (simp only: record_entries_values)
  from g show "distinct (map fst (protocols snap))" by (simp only: grouped_def)
qed

lemma debank_names:
  assumes "normalizeDeBank_with vesting chainData = Inr snap"
  shows "fst ` set (protocols snap) =
         protoName_of ` set (records_of chainData) - set Object_prototype_keys"
proof -
  have "e_name ` set (map (record_entry vesting) (records_of chainData)) =
        protoName_of ` set (records_of chainData)"
    by (simp add: image_image record_entry_def)
  with grouped_names [OF grouped_normalizeDeBank [OF assms]] show ?thesis by simp
qed

lemma positions_reach:
  assumes "foldM (position tbl c) items st = Inr st'" and "grouped es st" and "pos \<in> set items"
  shows "\<exists>es1 s1 s2. grouped es1 s1 \<and> position tbl c s1 pos = Inr s2"
  using assms
proof (induction items arbitrary: st es)
  case Nil
  then show ?case by simp
next
  case (Cons x xs)
  from Cons.prems(1) obtain st1 where x: "position tbl c st x = Inr st1"
    and rest: "foldM (position tbl c) xs st1 = Inr st'"
    by (cases "position tbl c st x") simp_all
  show ?case
  proof (cases "pos = x")
    case True
    with x Cons.prems(2) show ?thesis by blast
  next
    case False
    with Cons.prems(3) have "pos \<in> set xs" by simp
    from Cons.IH [OF rest grouped_position [OF x Cons.prems(2)] this] show ?thesis .
  qed
qed

lemma position_asset_Inr:
  assumes "position_asset attrs val = Inr a"
  shows "a_type a = (if opt_get attrs ''position_type'' = JStr ''locked'' \<or>
                        opt_get attrs ''position_type'' = JStr ''staked''
                     then JStr ''supply'' else opt_get attrs ''position_type'')"
    and "a_value a = val"
proof -
  from assms obtain pt fi symbol q pr where
    pt: "get attrs ''position_type'' = Inr pt" and
    a: "a = \<lparr>a_symbol = symbol,
            a_amount = js_or (opt_get q ''float'') (JNum (Fin 0)),
            a_price = js_or pr (JNum (Fin 0)),
            a_value = val,
            a_type = (if pt = JStr ''locked'' \<or> pt = JStr ''staked'' then JStr ''supply'' else pt),
            a_flags = Some (opt_get fi ''flags'')\<rparr>"
    unfolding position_asset_def and_then_Inr by auto
  from pt have "opt_get attrs ''position_type'' = pt" by (simp add: opt_get_def)
  with a show "a_type a = (if opt_get attrs ''position_type'' = JStr ''locked'' \<or>
                        opt_get attrs ''position_type'' = JStr ''staked''
                     then JStr ''supply'' else opt_get attrs ''position_type'')"
    by simp
  from a show "a_value a = val" by simp
qed










lemma protoName_of_falsy:
  assumes "get proto ''name'' = Inr nm" and "\<not> truthy nm"
  shows "protoName_of proto = ''Unknown''"
  using assms by (simp add: protoName_of_def js_or_def)

lemma Unknown_plain: "''Unknown'' \<notin> set Object_prototype_keys"
  by (simp add: Object_prototype_keys_def)

lemma ensure_bucket_Unknown: "\<exists>st1. ensure_bucket ''Unknown'' ident st = Inr st1"
  by (rule ensure_bucket_total)


subsection \<open>The assembler\<close>

lemma map_of_assign: "map_of (assign k v ps) k' = (if k' = k then Some v else map_of ps k')"
  by (induction ps) auto

lemma chain_entry_Inr:
  assumes "chain_entry p fs a acc (d, z) = Inr acc'"
  shows "(\<not> existsSync (debank_file fs a d) \<and> \<not> existsSync (zerion_file fs a z) \<and> acc' = acc) \<or>
         (\<exists>dn zn. normalizeDeBank_with p (debank_argument p (debank_file fs a d)) = Inr dn \<and>
                  normalizeZerion (alias_table_of p) (zerion_argument (zerion_file fs a z)) z = Inr zn \<and>
                  acc' = assign z \<lparr>debank = dn, zerion = zn\<rparr> acc \<and>
                  (existsSync (debank_file fs a d) \<or> existsSync (zerion_file fs a z)))"
  using assms unfolding chain_entry_def Let_def
  by (auto simp: and_then_Inr split: if_splits)

lemma chain_entries_other:
  assumes "foldM (chain_entry p fs a) cm acc = Inr r" and "z \<notin> snd ` set cm"
  shows "map_of r z = map_of acc z"
  using assms
proof (induction cm arbitrary: acc)
  case Nil
  then show ?case by simp
next
  case (Cons x xs)
  obtain d' z' where x: "x = (d', z')" by (cases x)
  from Cons.prems(1) obtain acc1 where s: "chain_entry p fs a acc (d', z') = Inr acc1"
    and rest: "foldM (chain_entry p fs a) xs acc1 = Inr r"
    unfolding x by (cases "chain_entry p fs a acc (d', z')") simp_all
  from Cons.prems(2) x have ne: "z' \<noteq> z" and nin: "z \<notin> snd ` set xs" by auto
  from chain_entry_Inr [OF s] ne have "map_of acc1 z = map_of acc z"
    by (auto simp: map_of_assign)
  with Cons.IH [OF rest nin] show ?case by simp
qed

lemma chain_entries:
  assumes "foldM (chain_entry p fs a) cm acc = Inr r"
    and "(d, z) \<in> set cm" and "distinct (map snd cm)"
    and "existsSync (debank_file fs a d) \<or> existsSync (zerion_file fs a z)"
  shows "\<exists>dn zn. normalizeDeBank_with p (debank_argument p (debank_file fs a d)) = Inr dn \<and>
                 normalizeZerion (alias_table_of p) (zerion_argument (zerion_file fs a z)) z = Inr zn \<and>
                 map_of r z = Some \<lparr>debank = dn, zerion = zn\<rparr>"
  using assms(1,2,3)
proof (induction cm arbitrary: acc)
  case Nil
  then show ?case by simp
next
  case (Cons x xs)
  obtain d' z' where x: "x = (d', z')" by (cases x)
  from Cons.prems(1) obtain acc1 where s: "chain_entry p fs a acc (d', z') = Inr acc1"
    and rest: "foldM (chain_entry p fs a) xs acc1 = Inr r"
    unfolding x by (cases "chain_entry p fs a acc (d', z')") simp_all
  show ?case
  proof (cases "(d, z) = x")
    case True
    with x have eq: "d' = d" "z' = z" by simp_all
    from Cons.prems(3) x eq have nin: "z \<notin> snd ` set xs" by simp
    from chain_entry_Inr [OF s] assms(4) eq obtain dn zn where
      n: "normalizeDeBank_with p (debank_argument p (debank_file fs a d)) = Inr dn"
         "normalizeZerion (alias_table_of p) (zerion_argument (zerion_file fs a z)) z = Inr zn"
      and a1: "acc1 = assign z \<lparr>debank = dn, zerion = zn\<rparr> acc"
      by auto
    from chain_entries_other [OF rest nin] a1 have "map_of r z = Some \<lparr>debank = dn, zerion = zn\<rparr>"
      by (simp add: map_of_assign)
    with n show ?thesis by blast
  next
    case False
    with Cons.prems(2) have "(d, z) \<in> set xs" by simp
    moreover from Cons.prems(3) have "distinct (map snd xs)" by simp
    ultimately show ?thesis using Cons.IH [OF rest] by blast
  qed
qed

lemma address_entry_Inr:
  assumes "address_entry p fs acc a = Inr acc'"
  shows "\<exists>perChain. foldM (chain_entry p fs a) CHAIN_MAP [] = Inr perChain \<and>
                    acc' = assign a perChain acc"
  using assms unfolding address_entry_def
  by (auto simp: and_then_Inr split: if_splits)

lemma address_entries_other:
  assumes "foldM (address_entry p fs) addrs acc = Inr r" and "a \<notin> set addrs"
  shows "map_of r a = map_of acc a"
  using assms
proof (induction addrs arbitrary: acc)
  case Nil
  then show ?case by simp
next
  case (Cons x xs)
  from Cons.prems(1) obtain acc1 where s: "address_entry p fs acc x = Inr acc1"
    and rest: "foldM (address_entry p fs) xs acc1 = Inr r"
    by (cases "address_entry p fs acc x") simp_all
  from Cons.prems(2) have ne: "x \<noteq> a" and nin: "a \<notin> set xs" by auto
  from address_entry_Inr [OF s] ne have "map_of acc1 a = map_of acc a"
    by (auto simp: map_of_assign)
  with Cons.IH [OF rest nin] show ?case by simp
qed

lemma address_entries:
  assumes "foldM (address_entry p fs) addrs acc = Inr r" and "a \<in> set addrs"
  shows "\<exists>perChain. foldM (chain_entry p fs a) CHAIN_MAP [] = Inr perChain \<and>
                    map_of r a = Some perChain"
  using assms
proof (induction addrs arbitrary: acc)
  case Nil
  then show ?case by simp
next
  case (Cons x xs)
  from Cons.prems(1) obtain acc1 where s: "address_entry p fs acc x = Inr acc1"
    and rest: "foldM (address_entry p fs) xs acc1 = Inr r"
    by (cases "address_entry p fs acc x") simp_all
  show ?case
  proof (cases "a \<in> set xs")
    case True
    from Cons.IH [OF rest True] show ?thesis .
  next
    case False
    with Cons.prems(2) have eq: "x = a" by simp
    from address_entry_Inr [OF s] eq obtain perChain where
      c: "foldM (chain_entry p fs a) CHAIN_MAP [] = Inr perChain"
      and a1: "acc1 = assign a perChain acc" by auto
    from address_entries_other [OF rest False] a1 have "map_of r a = Some perChain"
      by (simp add: map_of_assign)
    with c show ?thesis by blast
  qed
qed

lemma CHAIN_MAP_distinct: "distinct (map snd CHAIN_MAP)"
  by (simp add: CHAIN_MAP_def)

lemma absent_debank: "\<not> existsSync f \<Longrightarrow> normalizeDeBank_with p (debank_argument p f) = Inr empty_snapshot"
  by (cases p) (simp_all add: existsSync_def debank_argument_def readJson_def js_or_def
      normalizeDeBank_with_def)

lemma absent_zerion: "\<not> existsSync f \<Longrightarrow> normalizeZerion tbl (zerion_argument f) z = Inr empty_snapshot"
  by (simp add: existsSync_def zerion_argument_def readJson_def js_or_def
      normalizeZerion_def zerion_items_def)

lemma TARGET_ADDRESSES_eval:
  "TARGET_ADDRESSES =
     [''0x9d17bb55b57b31329cf01aa7017948e398b277bc'',
      ''0x5c9e30def85334e587cf36eb07bdd6a72bf1452d'',
      ''0xd92293daca6bbed57f8cb6d498b48ea93e035e99'',
      ''0x15b325660a1c4a9582a7d834c31119c0cb9e3a42'',
      ''0x47441bd9fb3441370cb5b6c4684a0104353aec66'',
      ''0x011b0a055e02425461a1ae95b30f483c4ff05be7'',
      ''0x0b32aa5c1e71715206fe29b7badb21ad95f272c0'',
      ''0x87f16c31e32ae543278f5194cf94862f1cb1eee0'',
      ''0xbbbc35dfac3a00a03a8fde3540eca4f0e15c5e64'',
      ''0x4e5ed30e3b4eb39abce3c150f31e180a3ae5806e'',
      ''0x84a6a7c0674a3aa03e09c026600cb46181821f07'',
      ''0x5c051c0ff69b6f5fdd47e847eb370dd48726ec4d'',
      ''0x7bfee91193d9df2ac0bfe90191d40f23c773c060'',
      ''0xde6b2a06407575b98724818445178c1f5fd53361'',
      ''0xbdfa4f4492dd7b7cf211209c4791af8d52bf5c50'',
      ''0x33eecc48943aaeabb5328a25ff28eb85f67945c2'',
      ''0x3e8734ec146c981e3ed1f6b582d447dde701d90c'']"
  by code_simp

section \<open>Evaluating a run on a concrete payload\<close>

lemmas run_defs = normalizeDeBank_def normalizeDeBank_part003_def normalizeDeBank_with_def
  protocol_record_def portfolio_item_def token_list_def vesting_token_def token_asset_def
  normalizeZerion_def zerion_items_def position_def position_asset_def resolveAlias_def
  ensure_bucket_def lookup_def Object_prototype_keys_def add_value_def push_asset_def
  in_bucket_def empty_snapshot_def js_or_def opt_get_def js_mul_def trim_def is_space_def
  round64_int

lemma tenths_rounded:
  "round64 (1 / 10) = Fin dbl_0_1"
  "round64 (2 / 10) = Fin dbl_0_2"
  "round64 (3 / 10) = Fin dbl_0_3"
  "round64 (5 / 10) = Fin dbl_0_5"
  "round64 (6 / 10) = Fin dbl_0_6"
  "round64 (30000000000000004 / 100000000000000000) = Fin dbl_0_30000000000000004"
  "round64 (6000000000000001 / 10000000000000000) = Fin dbl_0_6000000000000001"
  unfolding dbl_0_1_def dbl_0_2_def dbl_0_3_def dbl_0_5_def dbl_0_6_def
    dbl_0_30000000000000004_def dbl_0_6000000000000001_def
  by code_simp+





section \<open>Claims\<close>




text \<open>
  C2. The claim says that both normalizers return a snapshot on every partial payload.
  \<^verbatim>\<open>normalizeDeBank\<close> does not: a protocol record without \<^verbatim>\<open>portfolio_item_list\<close>,
  a portfolio item without \<^verbatim>\<open>stats\<close> and a token without \<^verbatim>\<open>symbol\<close> each end the
  run with a \<^verbatim>\<open>TypeError\<close>, and a token without \<^verbatim>\<open>amount\<close> gets the value
  \<^verbatim>\<open>NaN\<close>, not zero. \<^verbatim>\<open>normalizeZerion\<close> shows the intended behaviour on the
  corresponding gaps: a position with nothing but a protocol name gets the symbol
  \<^verbatim>\<open>'?'\<close> and zero amount, price and value.
\<close>

theorem normalizeDeBank_partial_payloads:
  "normalizeDeBank (JArr [JObj [(''name'', JStr ''Aave V3''), (''id'', JStr ''aave3'')]])
     = Inl TypeError
   \<and> normalizeDeBank (JArr [JObj [(''name'', JStr ''Aave V3''), (''id'', JStr ''aave3''),
        (''portfolio_item_list'', JArr [JObj [(''detail'', JObj [])]])]])
     = Inl TypeError
   \<and> normalizeDeBank (JArr [JObj [(''name'', JStr ''Aave V3''), (''id'', JStr ''aave3''),
        (''portfolio_item_list'',
           JArr [JObj [(''stats'', JObj [(''net_usd_value'', JNum (Fin 100))]),
                       (''detail'', JObj [(''supply_token_list'',
                           JArr [JObj [(''amount'', JNum (Fin 100)), (''price'', JNum (Fin 1))]])])]])]])
     = Inl TypeError
   \<and> normalizeDeBank (JArr [JObj [(''name'', JStr ''Aave V3''), (''id'', JStr ''aave3''),
        (''portfolio_item_list'',
           JArr [JObj [(''stats'', JObj [(''net_usd_value'', JNum (Fin 100))]),
                       (''detail'', JObj [(''supply_token_list'',
                           JArr [JObj [(''symbol'', JStr ''USDC''), (''price'', JNum (Fin 1))]])])]])]])
     = Inr \<lparr>protocols =
              [(''Aave V3'',
                \<lparr>p_name = ''Aave V3'', p_id = JStr ''aave3'', p_value = Fin 100,
                 p_assets = [\<lparr>a_symbol = ''USDC'', a_amount = JUndefined, a_price = JNum (Fin 1),
                              a_value = JNum NaN, a_type = JStr ''supply'', a_flags = None\<rparr>]\<rparr>)],
            totalValue = Fin 100\<rparr>
   \<and> normalizeZerion PROTOCOL_NAME_MAP
        (JArr [JObj [(''attributes'', JObj [(''protocol'', JStr ''Aave V3'')])]]) ''ethereum''
     = Inr \<lparr>protocols =
              [(''Aave V3'',
                \<lparr>p_name = ''Aave V3'', p_id = JStr ''Aave V3'', p_value = Fin 0,
                 p_assets = [\<lparr>a_symbol = ''?'', a_amount = JNum (Fin 0), a_price = JNum (Fin 0),
                              a_value = JNum (Fin 0), a_type = JUndefined,
                              a_flags = Some JUndefined\<rparr>]\<rparr>)],
            totalValue = Fin 0\<rparr>"
  by (simp add: run_defs PROTOCOL_NAME_MAP_def)




text \<open>
  C4 (as stated). The claim says that an address is recorded whichever provider's
  resource is the one that exists. \<^verbatim>\<open>main\<close> lists the addresses with
  \<^verbatim>\<open>getDirectories(DATA_DIR_DEBANK)\<close>: an address that has a provider-B file but no
  provider-A directory is never visited, and the result has no record for it.
\<close>

theorem provider_B_only_address_is_skipped:
  "existsSync (zerion_file
     \<lparr>debank_dirs = [],
      debank_file = (\<lambda>a c. None),
      zerion_file = (\<lambda>a c. if a = ''0x15b325660a1C4a9582a7d834C31119C0CB9e3A42'' \<and> c = ''ethereum''
                             then Some (Json (JArr [])) else None)\<rparr> ''0x15b325660a1C4a9582a7d834C31119C0CB9e3A42'' ''ethereum'')
   \<and> \<not> existsSync (debank_file
     \<lparr>debank_dirs = [],
      debank_file = (\<lambda>a c. None),
      zerion_file = (\<lambda>a c. if a = ''0x15b325660a1C4a9582a7d834C31119C0CB9e3A42'' \<and> c = ''ethereum''
                             then Some (Json (JArr [])) else None)\<rparr> ''0x15b325660a1C4a9582a7d834C31119C0CB9e3A42'' ''eth'')
   \<and> main
     \<lparr>debank_dirs = [],
      debank_file = (\<lambda>a c. None),
      zerion_file = (\<lambda>a c. if a = ''0x15b325660a1C4a9582a7d834C31119C0CB9e3A42'' \<and> c = ''ethereum''
                             then Some (Json (JArr [])) else None)\<rparr> = Inr []
   \<and> main_part003
     \<lparr>debank_dirs = [],
      debank_file = (\<lambda>a c. None),
      zerion_file = (\<lambda>a c. if a = ''0x15b325660a1C4a9582a7d834C31119C0CB9e3A42'' \<and> c = ''ethereum''
                             then Some (Json (JArr [])) else None)\<rparr> = Inr []"
  by (simp add: main_def main_part003_def main_with_def existsSync_def)

text \<open>
  C4 (amended). For every address that has a directory under the provider-A data
  directory (and, in the copy with \<^verbatim>\<open>TARGET_ADDRESSES\<close>, whose lower-cased name is in
  that list) and every pair of \<open>CHAIN_MAP\<close>, if the resource of at least one provider
  exists then a completed run holds a record for that address under the canonical chain
  key: each side is the result of its normalizer on what \<^verbatim>\<open>readJson\<close> delivers, and the
  side whose resource is absent is the empty snapshot \<^verbatim>\<open>{protocols:{}, totalValue:0}\<close>.
  So an address without any provider-B resource is not skipped.
\<close>

theorem one_sided_chain_is_recorded:
  assumes "main_with part003 fs = Inr result"
    and "address \<in> set (debank_dirs fs)"
    and "part003 \<longrightarrow> toLowerCase address \<in> set TARGET_ADDRESSES"
    and "(debankChainId, zerionChainId) \<in> set CHAIN_MAP"
    and "existsSync (debank_file fs address debankChainId) \<or>
         existsSync (zerion_file fs address zerionChainId)"
  shows "\<exists>perChain record.
           map_of result address = Some perChain
         \<and> map_of perChain zerionChainId = Some record
         \<and> normalizeDeBank_with part003
              (debank_argument part003 (debank_file fs address debankChainId)) = Inr (debank record)
         \<and> normalizeZerion (alias_table_of part003)
              (zerion_argument (zerion_file fs address zerionChainId)) zerionChainId
              = Inr (zerion record)
         \<and> (\<not> existsSync (zerion_file fs address zerionChainId) \<longrightarrow> zerion record = empty_snapshot)
         \<and> (\<not> existsSync (debank_file fs address debankChainId) \<longrightarrow> debank record = empty_snapshot)"
proof -
  let ?addrs = "if part003 \<and> length TARGET_ADDRESSES > 0
             then filter (\<lambda>addr. toLowerCase addr \<in> set TARGET_ADDRESSES) (debank_dirs fs)
             else debank_dirs fs"
  from assms(1) have run: "foldM (address_entry part003 fs) ?addrs [] = Inr result"
    by (simp add: main_with_def Let_def)
  from assms(2,3) have "address \<in> set ?addrs" by auto
  from address_entries [OF run this] obtain perChain where
    pc: "foldM (chain_entry part003 fs address) CHAIN_MAP [] = Inr perChain"
    and r: "map_of result address = Some perChain" by blast
  from chain_entries [OF pc assms(4) CHAIN_MAP_distinct assms(5)] obtain dn zn where
    d: "normalizeDeBank_with part003
          (debank_argument part003 (debank_file fs address debankChainId)) = Inr dn"
    and z: "normalizeZerion (alias_table_of part003)
          (zerion_argument (zerion_file fs address zerionChainId)) zerionChainId = Inr zn"
    and m: "map_of perChain zerionChainId = Some \<lparr>debank = dn, zerion = zn\<rparr>" by blast
  have "\<not> existsSync (zerion_file fs address zerionChainId) \<longrightarrow> zn = empty_snapshot"
    using z absent_zerion by fastforce
  moreover have "\<not> existsSync (debank_file fs address debankChainId) \<longrightarrow> dn = empty_snapshot"
    using d absent_debank by fastforce
  ultimately show ?thesis using r m d z
    by (intro exI [of _ perChain] exI [of _ "\<lparr>debank = dn, zerion = zn\<rparr>"]) simp
qed

theorem one_sided_chain_is_recorded_witness:
  "(\<exists>result perChain record.
      main_with False example_files = Inr result
    \<and> map_of result example_address = Some perChain
    \<and> map_of perChain ''ethereum'' = Some record
    \<and> normalizeDeBank_with False
         (debank_argument False (debank_file example_files example_address ''eth''))
         = Inr (debank record)
    \<and> zerion record = \<lparr>protocols = [], totalValue = Fin 0\<rparr>)
 \<and> (\<exists>result perChain record.
      main_with True example_files = Inr result
    \<and> map_of result example_address = Some perChain
    \<and> map_of perChain ''ethereum'' = Some record
    \<and> normalizeDeBank_with True
         (debank_argument True (debank_file example_files example_address ''eth''))
         = Inr (debank record)
    \<and> zerion record = \<lparr>protocols = [], totalValue = Fin 0\<rparr>)"
proof -
  let ?S =
    "\<lparr>protocols = [(''Aave V3'', \<lparr>p_name = ''Aave V3'', p_id = JStr ''aave3'',
      p_value = Fin 100, p_assets = [\<lparr>a_symbol = ''USDC'', a_amount = JNum (Fin 100),
      a_price = JNum (Fin 1), a_value = JNum (Fin 100), a_type = JStr ''supply'',
      a_flags = None\<rparr>]\<rparr>)], totalValue = Fin 100\<rparr>"
  let ?R = "[(example_address, [(''ethereum'', \<lparr>debank = ?S, zerion = empty_snapshot\<rparr>)])]"
  have lower: "toLowerCase example_address = ''0x15b325660a1c4a9582a7d834c31119c0cb9e3a42''"
    unfolding example_address_def by code_simp
  have run: "main_with p example_files = Inr ?R" for p
    by (cases p)
      (simp_all add: main_with_def address_entry_def chain_entry_def CHAIN_MAP_def existsSync_def
        debank_argument_def zerion_argument_def alias_table_of_def readJson_def
        TARGET_ADDRESSES_eval lower example_files_def run_defs,
       simp_all add: example_address_def)
  have mem: "example_address \<in> set (debank_dirs example_files)"
    by (simp add: example_files_def)
  have target: "p \<longrightarrow> toLowerCase example_address \<in> set TARGET_ADDRESSES" for p
    by (simp add: TARGET_ADDRESSES_eval lower)
  have chain: "(''eth'', ''ethereum'') \<in> set CHAIN_MAP" by (simp add: CHAIN_MAP_def)
  have present:
    "existsSync (debank_file example_files example_address ''eth'') \<or>
     existsSync (zerion_file example_files example_address ''ethereum'')"
    by (simp add: existsSync_def example_files_def)
  have absent: "\<not> existsSync (zerion_file example_files example_address ''ethereum'')"
    by (simp add: existsSync_def example_files_def)
  have inst: "(\<exists>result perChain record.
      main_with p example_files = Inr result
    \<and> map_of result example_address = Some perChain
    \<and> map_of perChain ''ethereum'' = Some record
    \<and> normalizeDeBank_with p
         (debank_argument p (debank_file example_files example_address ''eth''))
         = Inr (debank record)
    \<and> zerion record = \<lparr>protocols = [], totalValue = Fin 0\<rparr>)" for p
    using one_sided_chain_is_recorded [OF run mem target chain present, of p] run [of p] absent
    by (auto simp: empty_snapshot_def)
  from inst [of False] inst [of True] show ?thesis by (rule conjI)
qed

text \<open>
  C5. A provider-B position whose \<^verbatim>\<open>protocol\<close> attribute is null or absent is excluded
  entirely: processing it leaves the snapshot as it was (no bucket, no asset, nothing added
  to \<open>totalValue\<close>), so a payload gives the same result with and without it, as a bare
  array and under the \<^verbatim>\<open>data\<close> wrapper. In particular
  \<^verbatim>\<open>{data:[{attributes:{protocol:null,value:50}}]}\<close> yields
  \<^verbatim>\<open>{protocols:{}, totalValue:0}\<close>, on every chain and with every alias table.
\<close>

theorem normalizeZerion_excludes_wallet_positions:
  assumes "get pos ''attributes'' = Inr attrs"
    and "opt_get attrs ''protocol'' = JNull \<or> opt_get attrs ''protocol'' = JUndefined"
  shows "position tbl chainId st pos = Inr st
       \<and> position_entries tbl chainId pos = []
       \<and> normalizeZerion tbl (JArr (before @ pos # after)) chainId
           = normalizeZerion tbl (JArr (before @ after)) chainId
       \<and> normalizeZerion tbl (JObj [(''data'', JArr (before @ pos # after))]) chainId
           = normalizeZerion tbl (JObj [(''data'', JArr (before @ after))]) chainId
       \<and> normalizeZerion tbl
           (JObj [(''data'', JArr [JObj [(''attributes'',
                     JObj [(''protocol'', JNull), (''value'', JNum (Fin 50))])]])]) chainId
           = Inr \<lparr>protocols = [], totalValue = Fin 0\<rparr>"
proof -
  have f: "filtered_out pos" using assms by (auto simp: filtered_out_def)
  have skip: "position tbl chainId s pos = Inr s" for s
    by (rule position_skip [OF f])
  have e: "position_entries tbl chainId pos = []"
    by (rule position_entries_skip [OF f])
  have a: "normalizeZerion tbl (JArr (before @ pos # after)) chainId
           = normalizeZerion tbl (JArr (before @ after)) chainId"
    by (simp add: normalizeZerion_def zerion_items_def foldM_skip [of "position tbl chainId", OF skip])
  have b: "normalizeZerion tbl (JObj [(''data'', JArr (before @ pos # after))]) chainId
           = normalizeZerion tbl (JObj [(''data'', JArr (before @ after))]) chainId"
    by (simp add: normalizeZerion_def zerion_items_def foldM_skip [of "position tbl chainId", OF skip])
  have c: "normalizeZerion tbl
           (JObj [(''data'', JArr [JObj [(''attributes'',
                     JObj [(''protocol'', JNull), (''value'', JNum (Fin 50))])]])]) chainId
           = Inr \<lparr>protocols = [], totalValue = Fin 0\<rparr>"
    by (simp add: normalizeZerion_def zerion_items_def position_def empty_snapshot_def)
  from skip e a b c show ?thesis by blast
qed

theorem normalizeZerion_excludes_wallet_positions_witness:
  "get wallet_position ''attributes'' = Inr (JObj [(''protocol'', JNull), (''value'', JNum (Fin 9))])
   \<and> opt_get (JObj [(''protocol'', JNull), (''value'', JNum (Fin 9))]) ''protocol'' = JNull
   \<and> position_entries PROTOCOL_NAME_MAP ''ethereum'' wallet_position = []
   \<and> normalizeZerion PROTOCOL_NAME_MAP
        (JObj [(''data'', JArr [staked_position, wallet_position, deposit_position])]) ''ethereum''
     = normalizeZerion PROTOCOL_NAME_MAP
        (JObj [(''data'', JArr [staked_position, deposit_position])]) ''ethereum''
   \<and> normalizeZerion PROTOCOL_NAME_MAP
        (JObj [(''data'', JArr [staked_position, deposit_position])]) ''ethereum''
     = Inr \<lparr>protocols =
              [(''Morpho'',
                \<lparr>p_name = ''Morpho'', p_id = JStr ''Morpho'', p_value = Fin 75,
                 p_assets =
                   [\<lparr>a_symbol = ''USDC'', a_amount = JNum (Fin 50), a_price = JNum (Fin 1),
                     a_value = JNum (Fin 50), a_type = JStr ''supply'',
                     a_flags = Some JUndefined\<rparr>,
                    \<lparr>a_symbol = ''?'', a_amount = JNum (Fin 0), a_price = JNum (Fin 0),
                     a_value = JNum (Fin 25), a_type = JStr ''deposit'',
                     a_flags = Some JUndefined\<rparr>]\<rparr>)],
            totalValue = Fin 75\<rparr>"
proof -
  have attrs: "get wallet_position ''attributes''
      = Inr (JObj [(''protocol'', JNull), (''value'', JNum (Fin 9))])"
    by (simp add: wallet_position_def)
  have null: "opt_get (JObj [(''protocol'', JNull), (''value'', JNum (Fin 9))]) ''protocol'' = JNull"
    by (simp add: opt_get_def)
  have absent: "opt_get (JObj [(''protocol'', JNull), (''value'', JNum (Fin 9))]) ''protocol'' = JNull
      \<or> opt_get (JObj [(''protocol'', JNull), (''value'', JNum (Fin 9))]) ''protocol'' = JUndefined"
    using null by (rule disjI1)
  note t = normalizeZerion_excludes_wallet_positions [OF attrs absent,
      of PROTOCOL_NAME_MAP "''ethereum''" empty_snapshot "[staked_position]" "[deposit_position]"]
  have without: "normalizeZerion PROTOCOL_NAME_MAP
        (JObj [(''data'', JArr [staked_position, deposit_position])]) ''ethereum''
     = Inr \<lparr>protocols =
              [(''Morpho'',
                \<lparr>p_name = ''Morpho'', p_id = JStr ''Morpho'', p_value = Fin 75,
                 p_assets =
                   [\<lparr>a_symbol = ''USDC'', a_amount = JNum (Fin 50), a_price = JNum (Fin 1),
                     a_value = JNum (Fin 50), a_type = JStr ''supply'',
                     a_flags = Some JUndefined\<rparr>,
                    \<lparr>a_symbol = ''?'', a_amount = JNum (Fin 0), a_price = JNum (Fin 0),
                     a_value = JNum (Fin 25), a_type = JStr ''deposit'',
                     a_flags = Some JUndefined\<rparr>]\<rparr>)],
            totalValue = Fin 75\<rparr>"
    by (simp add: example_defs run_defs PROTOCOL_NAME_MAP_def)
  from t have same: "normalizeZerion PROTOCOL_NAME_MAP
        (JObj [(''data'', JArr [staked_position, wallet_position, deposit_position])]) ''ethereum''
     = normalizeZerion PROTOCOL_NAME_MAP
        (JObj [(''data'', JArr [staked_position, deposit_position])]) ''ethereum''"
    by simp
  from attrs null t [THEN conjunct2, THEN conjunct1] same without show ?thesis
    by (intro conjI)
qed

text \<open>
  C6 (as stated). On the provider-A payload
  \<^verbatim>\<open>[{name:"Aave V3", id:"aave3", portfolio_item_list:[{stats:{net_usd_value:100},
     detail:{supply_token_list:[{symbol:" USDC ",amount:100,price:1}]}}]}]\<close>
  the claim expects an asset object \<^verbatim>\<open>{symbol:"USDC",amount:100,price:1,value:100,role:"supply"}\<close>.
  The object that \<^verbatim>\<open>normalizeDeBank\<close> returns is not that one: the asset has no
  \<^verbatim>\<open>role\<close> property, the source writes \<^verbatim>\<open>type: 'supply'\<close>.
\<close>

theorem normalizeDeBank_scenario_no_role:
  "(case normalizeDeBank
     (JArr [JObj [(''name'', JStr ''Aave V3''), (''id'', JStr ''aave3''),
       (''portfolio_item_list'',
          JArr [JObj [(''stats'', JObj [(''net_usd_value'', JNum (Fin 100))]),
                      (''detail'', JObj [(''supply_token_list'',
                          JArr [JObj [(''symbol'', JStr '' USDC ''), (''amount'', JNum (Fin 100)),
                                      (''price'', JNum (Fin 1))]])])]])]]) of
      Inr s \<Rightarrow> snapshot_obj s | Inl e \<Rightarrow> JUndefined)
   \<noteq> JObj [(''protocols'', JObj [(''Aave V3'',
             JObj [(''name'', JStr ''Aave V3''), (''id'', JStr ''aave3''), (''value'', JNum (Fin 100)),
                   (''assets'', JArr [JObj [(''symbol'', JStr ''USDC''), (''amount'', JNum (Fin 100)),
                       (''price'', JNum (Fin 1)), (''value'', JNum (Fin 100)),
                       (''role'', JStr ''supply'')]])])]),
           (''totalValue'', JNum (Fin 100))]"
  by (simp add: run_defs snapshot_obj_def protocol_obj_def asset_obj_def)

text \<open>
  C6 (amended). On that payload \<^verbatim>\<open>normalizeDeBank\<close> returns exactly the snapshot
  \<^verbatim>\<open>{protocols:{"Aave V3":{name:"Aave V3",id:"aave3",value:100,
     assets:[{symbol:"USDC",amount:100,price:1,value:100,type:"supply"}]}},totalValue:100}\<close>:
  the symbol is trimmed of the surrounding white space and the asset's \<^verbatim>\<open>type\<close>
  property is \<^verbatim>\<open>"supply"\<close>.
\<close>

theorem normalizeDeBank_scenario:
  "normalizeDeBank
     (JArr [JObj [(''name'', JStr ''Aave V3''), (''id'', JStr ''aave3''),
       (''portfolio_item_list'',
          JArr [JObj [(''stats'', JObj [(''net_usd_value'', JNum (Fin 100))]),
                      (''detail'', JObj [(''supply_token_list'',
                          JArr [JObj [(''symbol'', JStr '' USDC ''), (''amount'', JNum (Fin 100)),
                                      (''price'', JNum (Fin 1))]])])]])]])
   = Inr \<lparr>protocols =
            [(''Aave V3'',
              \<lparr>p_name = ''Aave V3'', p_id = JStr ''aave3'', p_value = Fin 100,
               p_assets = [\<lparr>a_symbol = ''USDC'', a_amount = JNum (Fin 100), a_price = JNum (Fin 1),
                            a_value = JNum (Fin 100), a_type = JStr ''supply'', a_flags = None\<rparr>]\<rparr>)],
          totalValue = Fin 100\<rparr>
   \<and> snapshot_obj
       \<lparr>protocols =
            [(''Aave V3'',
              \<lparr>p_name = ''Aave V3'', p_id = JStr ''aave3'', p_value = Fin 100,
               p_assets = [\<lparr>a_symbol = ''USDC'', a_amount = JNum (Fin 100), a_price = JNum (Fin 1),
                            a_value = JNum (Fin 100), a_type = JStr ''supply'', a_flags = None\<rparr>]\<rparr>)],
          totalValue = Fin 100\<rparr>
     = JObj [(''protocols'', JObj [(''Aave V3'',
             JObj [(''name'', JStr ''Aave V3''), (''id'', JStr ''aave3''), (''value'', JNum (Fin 100)),
                   (''assets'', JArr [JObj [(''symbol'', JStr ''USDC''), (''amount'', JNum (Fin 100)),
                       (''price'', JNum (Fin 1)), (''value'', JNum (Fin 100)),
                       (''type'', JStr ''supply'')]])])]),
           (''totalValue'', JNum (Fin 100))]"
  by (simp add: run_defs snapshot_obj_def protocol_obj_def asset_obj_def)







text \<open>
  C9. For every provider-B position that \<^verbatim>\<open>normalizeZerion\<close> processes (it has
  attributes and a protocol), the position emits one asset, which ends up in the bucket
  of its resolved name, and the \<^verbatim>\<open>type\<close> of that asset (the specification's role) is
  \<^verbatim>\<open>'supply'\<close> when \<^verbatim>\<open>position_type\<close> is \<^verbatim>\<open>'locked'\<close> or \<^verbatim>\<open>'staked'\<close> and
  the \<^verbatim>\<open>position_type\<close> unchanged otherwise.
\<close>

theorem position_type_coalesced:
  assumes "normalizeZerion tbl raw chainId = Inr snap"
    and "pos \<in> set (positions_of raw)"
    and "get pos ''attributes'' = Inr attrs"
    and "truthy attrs"
    and "truthy (opt_get attrs ''protocol'')"
  shows "\<exists>k n a b.
           position_entries tbl chainId pos =
             [\<lparr>e_name = k, e_id = JStr k, e_values = [n], e_assets = [a]\<rparr>]
         \<and> (k, b) \<in> set (protocols snap)
         \<and> a \<in> set (p_assets b)
         \<and> a_type a = (if opt_get attrs ''position_type'' = JStr ''locked'' \<or>
                           opt_get attrs ''position_type'' = JStr ''staked''
                        then JStr ''supply'' else opt_get attrs ''position_type'')"
proof -
  let ?val = "js_or (opt_get attrs ''value'') (JNum (Fin 0))"
  from assms(1) obtain items where i: "zerion_items raw = Inr items"
    and f: "foldM (position tbl chainId) items empty_snapshot = Inr snap"
    by (auto simp: normalizeZerion_def and_then_Inr)
  from i have po: "positions_of raw = items" by (simp add: positions_of_def)
  from assms(2) po have "pos \<in> set items" by simp
  from positions_reach [OF f grouped_empty this] obtain es1 s1 s2 where
    g1: "grouped es1 s1" and p: "position tbl chainId s1 pos = Inr s2" by blast
  have nf: "\<not> filtered_out pos" using assms(3,4,5) by (simp add: filtered_out_def)
  from position_Inr [OF p nf] assms(3) obtain name0 k st1 st2 where
    h: "get pos ''attributes'' = Inr attrs" "truthy attrs" "truthy (opt_get attrs ''protocol'')"
    "as_string (opt_get attrs ''protocol'') = Inr name0" "resolveAlias tbl chainId name0 = Inr (Name k)"
    and eb: "ensure_bucket k (JStr k) s1 = Inr st1"
    and av: "add_value k ?val st1 = Inr st2"
    and pa: "push_asset k (position_asset attrs ?val) st2 = Inr s2"
    by auto
  from grouped_add_value [OF grouped_ensure [OF g1 eb] av] obtain n where
    n: "ToNumber ?val = Inr n" and
    g: "grouped (es1 @ [\<lparr>e_name = k, e_id = JStr k, e_values = [] @ [n], e_assets = []\<rparr>]) st2"
    by blast
  from grouped_push [OF g pa] obtain a where a: "position_asset attrs ?val = Inr a" by blast
  let ?e = "\<lparr>e_name = k, e_id = JStr k, e_values = [n], e_assets = [a]\<rparr>"
  note pe = position_entries_one [OF h n a]
  have "?e \<in> set (position_entries tbl chainId pos)" by (simp add: pe)
  with assms(2) have "?e \<in> set (concat (map (position_entries tbl chainId) (positions_of raw)))"
    unfolding set_concat by (intro UN_I [of "position_entries tbl chainId pos"]) simp_all
  from grouped_has_bucket [OF grouped_normalizeZerion [OF assms(1)] this]
  obtain b where "(k, b) \<in> set (protocols snap)" "a \<in> set (p_assets b)" by auto
  with pe position_asset_Inr(1) [OF a] show ?thesis by blast
qed

theorem position_type_coalesced_witness:
  "\<exists>snap.
     normalizeZerion PROTOCOL_NAME_MAP morpho_payload ''ethereum'' = Inr snap
   \<and> (\<exists>k n a b.
        position_entries PROTOCOL_NAME_MAP ''ethereum'' staked_position
          = [\<lparr>e_name = k, e_id = JStr k, e_values = [n], e_assets = [a]\<rparr>]
      \<and> (k, b) \<in> set (protocols snap)
      \<and> a \<in> set (p_assets b)
      \<and> a_type a = JStr ''supply'')
   \<and> (\<exists>k n a b.
        position_entries PROTOCOL_NAME_MAP ''ethereum'' deposit_position
          = [\<lparr>e_name = k, e_id = JStr k, e_values = [n], e_assets = [a]\<rparr>]
      \<and> (k, b) \<in> set (protocols snap)
      \<and> a \<in> set (p_assets b)
      \<and> a_type a = JStr ''deposit'')"
proof -
  let ?S =
    "\<lparr>protocols = [(''Morpho'', \<lparr>p_name = ''Morpho'', p_id = JStr ''Morpho'',
      p_value = Fin 75, p_assets = [\<lparr>a_symbol = ''USDC'', a_amount = JNum (Fin 50),
      a_price = JNum (Fin 1), a_value = JNum (Fin 50), a_type = JStr ''supply'',
      a_flags = Some JUndefined\<rparr>, \<lparr>a_symbol = ''?'', a_amount = JNum (Fin 0),
      a_price = JNum (Fin 0), a_value = JNum (Fin 25), a_type = JStr ''deposit'',
      a_flags = Some JUndefined\<rparr>]\<rparr>)], totalValue = Fin 75\<rparr>"
  have run: "normalizeZerion PROTOCOL_NAME_MAP morpho_payload ''ethereum'' = Inr ?S"
    by (simp add: example_defs run_defs PROTOCOL_NAME_MAP_def)
  have positions: "positions_of morpho_payload = [staked_position, wallet_position, deposit_position]"
    by (simp add: morpho_payload_def positions_of_def zerion_items_def)
  have staked: "(\<exists>k n a b.
        position_entries PROTOCOL_NAME_MAP ''ethereum'' staked_position
          = [\<lparr>e_name = k, e_id = JStr k, e_values = [n], e_assets = [a]\<rparr>]
      \<and> (k, b) \<in> set (protocols ?S)
      \<and> a \<in> set (p_assets b)
      \<and> a_type a = JStr ''supply'')"
    using position_type_coalesced [OF run, of staked_position
        "JObj [(''protocol'', JStr ''Morpho Blue''), (''value'', JNum (Fin 50)),
          (''position_type'', JStr ''staked''), (''fungible_info'', JObj [(''symbol'',
          JStr '' USDC '')]), (''quantity'', JObj [(''float'', JNum (Fin 50))]), (''price'',
          JNum (Fin 1))]"]
    by (simp add: positions staked_position_def opt_get_def)
  have deposit: "(\<exists>k n a b.
        position_entries PROTOCOL_NAME_MAP ''ethereum'' deposit_position
          = [\<lparr>e_name = k, e_id = JStr k, e_values = [n], e_assets = [a]\<rparr>]
      \<and> (k, b) \<in> set (protocols ?S)
      \<and> a \<in> set (p_assets b)
      \<and> a_type a = JStr ''deposit'')"
    using position_type_coalesced [OF run, of deposit_position
        "JObj [(''protocol'', JStr ''Morpho''), (''value'', JNum (Fin 25)), (''position_type'',
          JStr ''deposit'')]"]
    by (simp add: positions deposit_position_def opt_get_def)
  show ?thesis
    by (rule exI [of _ ?S]) (rule conjI [OF run conjI [OF staked deposit]])
qed

text \<open>
  C10 (as stated). The claim says that the bucket \<^verbatim>\<open>'Unknown'\<close> gets the id of every
  nameless record. The id is copied only when the bucket is created: of two nameless
  records with the ids \<^verbatim>\<open>"a"\<close> and \<^verbatim>\<open>"b"\<close> the bucket keeps \<^verbatim>\<open>"a"\<close>.
\<close>

theorem second_nameless_record_keeps_first_id:
  "normalizeDeBank
      (JArr [JObj [(''id'', JStr ''a''), (''portfolio_item_list'', JArr [])], JObj [(''name'',
        JNull), (''id'', JStr ''b''), (''portfolio_item_list'', JArr [JObj [(''stats'',
        JObj [(''net_usd_value'', JNum (Fin 5))])]])]])
   = Inr
      \<lparr>protocols = [(''Unknown'', \<lparr>p_name = ''Unknown'', p_id = JStr ''a'',
        p_value = Fin 5, p_assets = []\<rparr>)], totalValue = Fin 5\<rparr>
   \<and> JStr ''a'' \<noteq> JStr ''b''"
  by (simp add: run_defs)

text \<open>
  C10 (amended). A provider-A record whose \<^verbatim>\<open>name\<close> is absent or falsy is neither
  skipped nor failed on account of the name: it is processed as a record named
  \<^verbatim>\<open>'Unknown'\<close> (the bucket is created if need be, which cannot fail, and the items of
  the record are run under that name). In the snapshot returned the bucket
  \<^verbatim>\<open>'Unknown'\<close> has the id of the first record of the payload that is bucketed under
  \<^verbatim>\<open>'Unknown'\<close>, its value is the sum of the net values of the items of all such
  records, this record among them, and \<open>totalValue\<close> is the sum over all items; the sums
  are added up in payload order.
\<close>

theorem nameless_record_bucketed_as_Unknown:
  assumes "normalizeDeBank_with vesting chainData = Inr snap"
    and "proto \<in> set (records_of chainData)"
    and "get proto ''name'' = Inr nm"
    and "\<not> truthy nm"
  shows "(\<exists>b. (''Unknown'', b) \<in> set (protocols snap)
            \<and> p_name b = ''Unknown''
            \<and> p_id b = opt_get (hd (filter (\<lambda>r. protoName_of r = ''Unknown'')
                                  (records_of chainData))) ''id''
            \<and> p_value b = running_sum (map net_value (concat (map items_of
                             (filter (\<lambda>r. protoName_of r = ''Unknown'') (records_of chainData))))))
       \<and> proto \<in> set (filter (\<lambda>r. protoName_of r = ''Unknown'') (records_of chainData))
       \<and> totalValue snap = running_sum (map net_value (concat (map items_of (records_of chainData))))
       \<and> (\<exists>st1. ensure_bucket ''Unknown'' (opt_get proto ''id'') st = Inr st1
              \<and> protocol_record vesting st proto =
                  and_then (get proto ''portfolio_item_list'')
                    (\<lambda>items. forEach items (portfolio_item vesting ''Unknown'') st1))"
proof -
  note pn = protoName_of_falsy [OF assms(3,4)]
  from assms(2) pn Unknown_plain
  have "''Unknown'' \<in> protoName_of ` set (records_of chainData) - set Object_prototype_keys"
    by force
  with debank_names [OF assms(1)] obtain b where b: "(''Unknown'', b) \<in> set (protocols snap)"
    by force
  from ensure_bucket_Unknown obtain st1 where
    st1: "ensure_bucket ''Unknown'' (opt_get proto ''id'') st = Inr st1" by blast
  have pr: "protocol_record vesting st proto =
      and_then (get proto ''portfolio_item_list'')
        (\<lambda>items. forEach items (portfolio_item vesting ''Unknown'') st1)"
    using assms(3,4) st1 by (simp add: protocol_record_def js_or_def)
  from debank_bucket(1,2,3) [OF assms(1) b] debank_total(1) [OF assms(1)] b assms(2) pn st1 pr
  show ?thesis by auto
qed

theorem nameless_record_bucketed_as_Unknown_witness:
  "\<exists>snap.
     normalizeDeBank_with False nameless_payload = Inr snap
   \<and> (\<exists>b. (''Unknown'', b) \<in> set (protocols snap)
          \<and> p_name b = ''Unknown''
          \<and> p_id b = opt_get (hd (filter (\<lambda>r. protoName_of r = ''Unknown'') (records_of nameless_payload))) ''id''
          \<and> p_value b = running_sum (map net_value (concat (map items_of
               (filter (\<lambda>r. protoName_of r = ''Unknown'') (records_of nameless_payload))))))
   \<and> nameless_record \<in> set (filter (\<lambda>r. protoName_of r = ''Unknown'') (records_of nameless_payload))
   \<and> totalValue snap = running_sum (map net_value (concat (map items_of (records_of nameless_payload))))
   \<and> (\<exists>st1. ensure_bucket ''Unknown'' (opt_get nameless_record ''id'') empty_snapshot = Inr st1
          \<and> protocol_record False empty_snapshot nameless_record =
              and_then (get nameless_record ''portfolio_item_list'')
                (\<lambda>items. forEach items (portfolio_item False ''Unknown'') st1))"
proof -
  let ?S =
    "\<lparr>protocols = [(''Unknown'', \<lparr>p_name = ''Unknown'', p_id = JStr ''a'',
      p_value = Fin 5, p_assets = []\<rparr>)], totalValue = Fin 5\<rparr>"
  have run: "normalizeDeBank_with False nameless_payload = Inr ?S"
    by (simp add: example_defs run_defs)
  have mem: "nameless_record \<in> set (records_of nameless_payload)"
    by (simp add: records_of_def nameless_payload_def)
  have nm: "get nameless_record ''name'' = Inr JNull" by (simp add: nameless_record_def)
  have falsy: "\<not> truthy JNull" by simp
  note t = nameless_record_bucketed_as_Unknown [OF run mem nm falsy, of empty_snapshot]
  show ?thesis
    by (rule exI [of _ ?S]) (rule conjI [OF run t])
qed

end
